theory Spec2Isabelle
  imports Complex_Main "HOL-Library.Word"
begin

unbundle bit_operations_syntax

section \<open>Shapes of package resolv\<close>

text \<open>
  Go's \<^verbatim>\<open>int32\<close> is a 32-bit word: \<open>+\<close>, \<open>-\<close> and \<open>*\<close> wrap around, \<open>sint\<close> reads the
  two's complement value, and the comparisons of the source are the signed ones
  (\<open><s\<close>, \<open>\<le>s\<close>).
\<close>

type_synonym int32 = "32 word"

text \<open>
  Modelled from the spec: \<^verbatim>\<open>BasicShape\<close>, the struct embedded in every shape, whose
  declaration is not among the sources ("Position: a pair of integer coordinates (X, Y)
  shared by every shape variant as its reference point"). The fields \<open>X\<close> and \<open>Y\<close> are the
  ones \<^verbatim>\<open>NewCircle\<close> assigns (\<^verbatim>\<open>c.X = x; c.Y = y\<close>, with \<^verbatim>\<open>x, y int32\<close>). Tags and the user
  payload play no role in collision tests and are left out.
\<close>

record BasicShape =
  X :: int32
  Y :: int32

text \<open>\<^verbatim>\<open>type Circle struct { BasicShape; Radius int32 }\<close>\<close>

record Circle = BasicShape +
  Radius :: int32

text \<open>
  Modelled from the spec: Rectangle ("Position (top-left corner) + width, height") and Line
  ("start Position (X, Y) + end Position (X2, Y2)"), whose declarations are not among the
  sources. The fields are the ones \<^verbatim>\<open>Circle.IsColliding\<close> and \<^verbatim>\<open>isCollidingWithLine\<close> read:
  \<^verbatim>\<open>b.X, b.Y, b.W, b.H\<close> and \<^verbatim>\<open>l.X, l.Y, l.X2, l.Y2\<close>, each compared or combined with an
  \<^verbatim>\<open>int32\<close>.
\<close>

record Rectangle = BasicShape +
  W :: int32
  H :: int32

record Line = BasicShape +
  X2 :: int32
  Y2 :: int32

text \<open>
  A \<^verbatim>\<open>Shape\<close> is an interface value: nil, or a pointer of some type that implements the
  interface, which is nil as well or the address of an object. Two such values are equal
  (Go's \<^verbatim>\<open>==\<close>) exactly when they have the same type and point to the same object or are
  both nil. The heap maps an address to the object there; the type of a pointer to an
  object is the type of the object. \<^verbatim>\<open>type Space []Shape\<close> is the list of the values it
  holds. \<open>OtherShape\<close> stands for an object of any further implementation of the interface,
  which the type switch of \<^verbatim>\<open>Circle.IsColliding\<close> does not recognise.
\<close>

type_synonym addr = nat

datatype kind = CircleKind | RectangleKind | LineKind | SpaceKind | OtherKind

datatype ref = Ptr addr | Nil kind | NilShape

datatype Shape =
    CircleShape Circle
  | RectangleShape Rectangle
  | LineShape Line
  | SpaceShape "ref list"
  | OtherShape

type_synonym heap = "addr \<Rightarrow> Shape"

definition empty_heap :: heap where
  "empty_heap = (\<lambda>_. OtherShape)"

text \<open>
  The dynamic type of an interface value, on which a method call and a type switch
  dispatch: none for the nil interface.
\<close>

fun kind_of :: "Shape \<Rightarrow> kind" where
  "kind_of (CircleShape _) = CircleKind"
| "kind_of (RectangleShape _) = RectangleKind"
| "kind_of (LineShape _) = LineKind"
| "kind_of (SpaceShape _) = SpaceKind"
| "kind_of OtherShape = OtherKind"

fun type_of :: "heap \<Rightarrow> ref \<Rightarrow> kind option" where
  "type_of h (Ptr a) = Some (kind_of (h a))"
| "type_of h (Nil k) = Some k"
| "type_of h NilShape = None"

text \<open>
  Reading through a pointer: the object it points to, and nothing for a nil pointer, where
  the program panics with a nil pointer dereference.
\<close>

fun circle_at :: "heap \<Rightarrow> ref \<Rightarrow> Circle option" where
  "circle_at h (Ptr a) = (case h a of CircleShape c \<Rightarrow> Some c | _ \<Rightarrow> None)"
| "circle_at h _ = None"

fun rectangle_at :: "heap \<Rightarrow> ref \<Rightarrow> Rectangle option" where
  "rectangle_at h (Ptr a) = (case h a of RectangleShape r \<Rightarrow> Some r | _ \<Rightarrow> None)"
| "rectangle_at h _ = None"

fun line_at :: "heap \<Rightarrow> ref \<Rightarrow> Line option" where
  "line_at h (Ptr a) = (case h a of LineShape l \<Rightarrow> Some l | _ \<Rightarrow> None)"
| "line_at h _ = None"

fun space_at :: "heap \<Rightarrow> ref \<Rightarrow> ref list option" where
  "space_at h (Ptr a) = (case h a of SpaceShape sp \<Rightarrow> Some sp | _ \<Rightarrow> None)"
| "space_at h _ = None"

text \<open>Writing through a pointer that is not nil.\<close>

fun store :: "heap \<Rightarrow> ref \<Rightarrow> Shape \<Rightarrow> heap" where
  "store h (Ptr a) s = h(a := s)"
| "store h _ s = h"

text \<open>
  What ends a call without a result: the panic of \<^verbatim>\<open>Space.Add\<close>, and the run-time panic of
  a read or write through a nil pointer or of a method call on the nil interface. No
  function of the sources recovers from a panic.
\<close>

datatype panic = CannotAddItself ref | NilDereference

section \<open>Geometry primitives\<close>

text \<open>
  Modelled from the spec: \<^verbatim>\<open>Distance\<close>, the "scalar distance" of the geometry primitives,
  whose source is not among the sources. \<^verbatim>\<open>Circle.IsColliding\<close> compares its result with
  \<^verbatim>\<open>c.Radius+b.Radius\<close>, an \<^verbatim>\<open>int32\<close>, and \<^verbatim>\<open>isCollidingWithLine\<close> converts it with
  \<^verbatim>\<open>float64(...)\<close>: the result is an \<^verbatim>\<open>int32\<close>, the integer part of the Euclidean
  distance of the two points (the conversion of a floating-point number to an integer
  truncates in Go). The squared distance is taken over the mathematical integers; every
  theorem below that depends on the value assumes that the squared distance fits an
  \<^verbatim>\<open>int32\<close>, so that it holds as well if the function computes it in \<^verbatim>\<open>int32\<close>. In that range
  the square root has 16 bits and the integer part of its \<^verbatim>\<open>float64\<close> value is the integer
  part of the root.
\<close>

definition Distance :: "int32 \<Rightarrow> int32 \<Rightarrow> int32 \<Rightarrow> int32 \<Rightarrow> int32" where
  "Distance x y x2 y2 =
     (let dx = sint x - sint x2;
          dy = sint y - sint y2;
          ds = dx * dx + dy * dy
      in word_of_int \<lfloor>sqrt (real_of_int ds)\<rfloor>)"

text \<open>
  Modelled from the spec: \<^verbatim>\<open>Line.GetLength\<close>, the "segment length" of the geometry
  primitives: the distance of the two end points.
\<close>

definition GetLength :: "Line \<Rightarrow> int32" where
  "GetLength l = Distance (X l) (Y l) (X2 l) (Y2 l)"

subsection \<open>float64\<close>

text \<open>
  \<^verbatim>\<open>isCollidingWithLine\<close> computes in \<^verbatim>\<open>float64\<close>, the binary64 format of IEEE 754. A value
  is NaN, an infinity with its sign, or a finite number with its sign bit (\<open>True\<close> for
  negative) and its magnitude, a rational number: the two zeros are \<open>Finite False 0\<close> and
  \<open>Finite True 0\<close>. Every operation computes the exact result and rounds it to the nearest
  number of the format, to the even one of two nearest; each operation of the source rounds on
  its own (the language lets a compiler fuse \<open>x*y + z\<close> into one rounding, which the
  compiler for amd64 does not do).
\<close>

datatype float64 = Finite bool rat | Infinity bool | NaN

text \<open>The number of binary digits of a positive integer, and the integer square root.\<close>

function bit_length :: "int \<Rightarrow> int" where
  "bit_length n = (if n \<le> 0 then 0 else bit_length (n div 2) + 1)"
  by pat_completeness auto
termination by (relation "measure nat") auto

function isqrt :: "int \<Rightarrow> int" where
  "isqrt n =
     (if n \<le> 0 then 0
      else (let r = 2 * isqrt (n div 4) in if (r + 1) * (r + 1) \<le> n then r + 1 else r))"
  by pat_completeness auto
termination by (relation "measure nat") auto

declare bit_length.simps [simp del] isqrt.simps [simp del]

text \<open>
  \<open>pow2 k\<close> is \<open>2 ^ k\<close>, and \<open>ilog2 q\<close> the exponent of a positive rational \<open>q\<close>: the \<open>k\<close> with
  \<open>2 ^ k \<le> q < 2 ^ (k + 1)\<close>, which the lengths of numerator and denominator give up to one.
\<close>

definition pow2 :: "int \<Rightarrow> rat" where
  "pow2 k = (if 0 \<le> k then 2 ^ nat k else 1 / 2 ^ nat (- k))"

definition ilog2 :: "rat \<Rightarrow> int" where
  "ilog2 q =
     (let (n, d) = quotient_of q;
          k = bit_length n - bit_length d
      in if pow2 k \<le> q then k else k - 1)"

text \<open>The nearest integer, the even one of two nearest.\<close>

definition nearest_even :: "rat \<Rightarrow> int" where
  "nearest_even t =
     (let f = \<lfloor>t\<rfloor>; r = t - of_int f
      in if r < 1 / 2 then f else if 1 / 2 < r then f + 1
         else if even f then f else f + 1)"

text \<open>
  Rounding a magnitude \<open>m\<close> with the sign \<open>s\<close>: the format has 53 binary digits, so the
  numbers of the format near \<open>m\<close> are the multiples of \<open>u = 2 ^ (e - 52)\<close> for the exponent \<open>e\<close> of
  \<open>m\<close>, which is at least \<open>-1022\<close> (below that the numbers are subnormal, with the spacing
  \<open>2 ^ (- 1074)\<close>). A result of \<open>2 ^ 1024\<close> or more overflows to the infinity.
\<close>

definition round64 :: "bool \<Rightarrow> rat \<Rightarrow> float64" where
  "round64 s m =
     (if m = 0 then Finite s 0
      else (let e = max (ilog2 m) (- 1022);
                u = pow2 (e - 52);
                r = of_int (nearest_even (m / u)) * u
            in if pow2 1024 \<le> r then Infinity s else Finite s r))"

text \<open>
  The square root of a positive number \<open>m\<close> of the format, rounded: the root has the
  exponent \<open>e\<close>, half of that of \<open>m\<close>, and lies between \<open>f * u\<close> and \<open>(f + 1) * u\<close> for
  \<open>u = 2 ^ (e - 52)\<close> and the integer square root \<open>f\<close> of \<open>m / (u * u)\<close>; it is nearer to the first exactly
  when \<open>m / (u * u) < (f + 1/2) * (f + 1/2)\<close>. The root of a number of the format neither overflows nor is
  subnormal.
\<close>

definition sqrt64 :: "rat \<Rightarrow> float64" where
  "sqrt64 m =
     (let e = ilog2 m div 2;
          u = pow2 (e - 52);
          t = m / (u * u);
          f = isqrt \<lfloor>t\<rfloor>;
          mid = (of_int f + 1 / 2) * (of_int f + 1 / 2);
          n = (if t < mid then f else if mid < t then f + 1
               else if even f then f else f + 1)
      in Finite False (of_int n * u))"

text \<open>The number a finite value stands for.\<close>

fun val :: "float64 \<Rightarrow> rat" where
  "val (Finite s m) = (if s then - m else m)"
| "val _ = 0"

fun f_neg :: "float64 \<Rightarrow> float64" where
  "f_neg (Finite s m) = Finite (\<not> s) m"
| "f_neg (Infinity s) = Infinity (\<not> s)"
| "f_neg NaN = NaN"

text \<open>
  \<open>x + y\<close>. An exact sum of zero is the positive zero, unless both operands are negative
  zeros.
\<close>

fun f_add :: "float64 \<Rightarrow> float64 \<Rightarrow> float64" where
  "f_add NaN _ = NaN"
| "f_add _ NaN = NaN"
| "f_add (Infinity s) (Infinity t) = (if s = t then Infinity s else NaN)"
| "f_add (Infinity s) (Finite _ _) = Infinity s"
| "f_add (Finite _ _) (Infinity t) = Infinity t"
| "f_add (Finite s a) (Finite t b) =
     (let v = val (Finite s a) + val (Finite t b)
      in if v = 0 then Finite (s \<and> t) 0 else round64 (v < 0) \<bar>v\<bar>)"

text \<open>\<open>x - y\<close> is \<open>x + (-y)\<close>, also for the zeros and the infinities.\<close>

definition f_sub :: "float64 \<Rightarrow> float64 \<Rightarrow> float64" where
  "f_sub a b = f_add a (f_neg b)"

text \<open>\<open>x * y\<close> and \<open>x / y\<close>: the sign of the result is negative when the signs differ.\<close>

fun f_mul :: "float64 \<Rightarrow> float64 \<Rightarrow> float64" where
  "f_mul NaN _ = NaN"
| "f_mul _ NaN = NaN"
| "f_mul (Infinity s) (Infinity t) = Infinity (s \<noteq> t)"
| "f_mul (Infinity s) (Finite t b) = (if b = 0 then NaN else Infinity (s \<noteq> t))"
| "f_mul (Finite s a) (Infinity t) = (if a = 0 then NaN else Infinity (s \<noteq> t))"
| "f_mul (Finite s a) (Finite t b) = round64 (s \<noteq> t) (a * b)"

fun f_div :: "float64 \<Rightarrow> float64 \<Rightarrow> float64" where
  "f_div NaN _ = NaN"
| "f_div _ NaN = NaN"
| "f_div (Infinity s) (Infinity t) = NaN"
| "f_div (Infinity s) (Finite t b) = Infinity (s \<noteq> t)"
| "f_div (Finite s a) (Infinity t) = Finite (s \<noteq> t) 0"
| "f_div (Finite s a) (Finite t b) =
     (if b = 0 then (if a = 0 then NaN else Infinity (s \<noteq> t))
      else round64 (s \<noteq> t) (a / b))"

text \<open>\<^verbatim>\<open>math.Sqrt\<close>: NaN for a negative number, and the zero itself for a zero.\<close>

fun f_sqrt :: "float64 \<Rightarrow> float64" where
  "f_sqrt NaN = NaN"
| "f_sqrt (Infinity s) = (if s then NaN else Infinity False)"
| "f_sqrt (Finite s m) = (if m = 0 then Finite s 0 else if s then NaN else sqrt64 m)"

text \<open>The comparisons: false when an operand is NaN, and the two zeros are equal.\<close>

fun f_le :: "float64 \<Rightarrow> float64 \<Rightarrow> bool" where
  "f_le NaN _ = False"
| "f_le _ NaN = False"
| "f_le (Infinity s) (Infinity t) = (s \<or> \<not> t)"
| "f_le (Infinity s) (Finite _ _) = s"
| "f_le (Finite _ _) (Infinity t) = (\<not> t)"
| "f_le (Finite s a) (Finite t b) = (val (Finite s a) \<le> val (Finite t b))"

fun f_lt :: "float64 \<Rightarrow> float64 \<Rightarrow> bool" where
  "f_lt NaN _ = False"
| "f_lt _ NaN = False"
| "f_lt (Infinity s) (Infinity t) = (s \<and> \<not> t)"
| "f_lt (Infinity s) (Finite _ _) = s"
| "f_lt (Finite _ _) (Infinity t) = (\<not> t)"
| "f_lt (Finite s a) (Finite t b) = (val (Finite s a) < val (Finite t b))"

definition f_ge :: "float64 \<Rightarrow> float64 \<Rightarrow> bool" where
  "f_ge a b = f_le b a"

text \<open>
  \<^verbatim>\<open>float64(n)\<close> of an \<^verbatim>\<open>int32\<close> is exact: the number has at most 32 binary digits. The
  constant \<^verbatim>\<open>2\<close> of the source is the \<^verbatim>\<open>float64\<close> \<open>2\<close>.
\<close>

definition float64_of :: "int32 \<Rightarrow> float64" where
  "float64_of n = Finite (sint n < 0) (of_int \<bar>sint n\<bar>)"

definition two :: float64 where
  "two = Finite False 2"

section \<open>Circle\<close>

subsection \<open>isCollidingWithLine\<close>

text \<open>
  The altitude of the triangle of the segment and the centre, by Heron's formula:
  \<^verbatim>\<open>p := (AC + CB + BA) / 2\<close> and \<^verbatim>\<open>h := 2 * math.Sqrt(p*(p-AC)*(p-CB)*(p-BA)) / BA\<close>.
\<close>

definition semi_perimeter :: "float64 \<Rightarrow> float64 \<Rightarrow> float64 \<Rightarrow> float64" where
  "semi_perimeter AC CB BA = f_div (f_add (f_add AC CB) BA) two"

definition altitude :: "float64 \<Rightarrow> float64 \<Rightarrow> float64 \<Rightarrow> float64" where
  "altitude AC CB BA =
     (let p = semi_perimeter AC CB BA
      in f_div
           (f_mul two
              (f_sqrt (f_mul (f_mul (f_mul p (f_sub p AC)) (f_sub p CB)) (f_sub p BA))))
           BA)"

text \<open>
  The base of the triangle with legs \<open>primaryLine\<close> and the radius and the angle at the
  centre, by the law of cosines; \<open>rr\<close> is \<^verbatim>\<open>float64(c.Radius*c.Radius)\<close>, a product of
  \<^verbatim>\<open>int32\<close>.
\<close>

definition new_base :: "float64 \<Rightarrow> float64 \<Rightarrow> float64 \<Rightarrow> float64 \<Rightarrow> float64 \<Rightarrow> float64" where
  "new_base AC CB BA r rr =
     (let cosC = f_div (f_sub (f_add (f_mul AC AC) (f_mul CB CB)) (f_mul BA BA))
                   (f_mul (f_mul two AC) CB);
          primaryLine = (if f_lt AC CB then CB else AC)
      in f_sqrt
           (f_sub (f_add (f_mul primaryLine primaryLine) rr)
              (f_mul (f_mul (f_mul two primaryLine) r) cosC)))"

text \<open>
  \<^verbatim>\<open>func (c *Circle) isCollidingWithLine(l *Line) bool\<close>, for a circle and a line that exist
  (the method reads \<^verbatim>\<open>c.X\<close> and \<^verbatim>\<open>l.X\<close> first, and panics there for a nil pointer: see
  \<open>Circle_IsColliding\<close>).
\<close>

definition isCollidingWithLine :: "Circle \<Rightarrow> Line \<Rightarrow> bool" where
  "isCollidingWithLine c l =
     (let AC = float64_of (Distance (X c) (Y c) (X l) (Y l));
          CB = float64_of (Distance (X c) (Y c) (X2 l) (Y2 l));
          BA = float64_of (GetLength l)
      in if f_le AC (float64_of (Radius c)) \<or> f_le CB (float64_of (Radius c)) then True
         else if f_le (altitude AC CB BA) (float64_of (Radius c)) then
           (if f_ge BA (new_base AC CB BA (float64_of (Radius c))
                          (float64_of (Radius c * Radius c)))
            then True else False)
         else False)"

subsection \<open>Verdicts\<close>

text \<open>
  The warning that \<^verbatim>\<open>Circle.IsColliding\<close> prints to the standard output for a shape it does
  not recognise, with the two values it names. A verdict is how a collision test ends, with
  the boolean it returns or the panic that ends it, and what it has printed.
\<close>

datatype warning = NotAValidShape ref ref

type_synonym verdict = "(panic + bool) \<times> warning list"

section \<open>Space\<close>

subsection \<open>Add\<close>

text \<open>
  \<^verbatim>\<open>func (sp *Space) Add(shapes ...Shape)\<close>: the loop over the arguments. A panic leaves
  the heap as the loop has made it so far.
\<close>

fun Space_Add :: "heap \<Rightarrow> ref \<Rightarrow> ref list \<Rightarrow> panic option \<times> heap" where
  "Space_Add h sp [] = (None, h)"
| "Space_Add h sp (shape # shapes) =
     (if shape = sp then (Some (CannotAddItself shape), h)
      else (case space_at h sp of
              None \<Rightarrow> (Some NilDereference, h)
            | Some s \<Rightarrow> Space_Add (store h sp (SpaceShape (s @ [shape]))) sp shapes))"

subsection \<open>IsColliding\<close>

text \<open>
  \<^verbatim>\<open>func (sp *Space) IsColliding(shape Shape) bool\<close>: the loop over the members that the
  Space holds when the loop starts; \<open>call a b\<close> is the call \<^verbatim>\<open>a.IsColliding(b)\<close> through the
  interface. A panic in a call ends the loop.
\<close>

fun Space_IsColliding_range ::
  "(ref \<Rightarrow> ref \<Rightarrow> verdict option) \<Rightarrow> ref list \<Rightarrow> ref \<Rightarrow> verdict option" where
  "Space_IsColliding_range call [] shape = Some (Inr False, [])"
| "Space_IsColliding_range call (other # sp) shape =
     (if other \<noteq> shape then
        (case call shape other of
           None \<Rightarrow> None
         | Some (Inl p, ws) \<Rightarrow> Some (Inl p, ws)
         | Some (Inr b, ws) \<Rightarrow>
             if b then Some (Inr True, ws)
             else (case Space_IsColliding_range call sp shape of
                     None \<Rightarrow> None
                   | Some (r, ws') \<Rightarrow> Some (r, ws @ ws')))
      else Space_IsColliding_range call sp shape)"

definition Space_IsColliding ::
  "(ref \<Rightarrow> ref \<Rightarrow> verdict option) \<Rightarrow> heap \<Rightarrow> ref \<Rightarrow> ref \<Rightarrow> verdict option" where
  "Space_IsColliding call h sp shape =
     (case space_at h sp of
        None \<Rightarrow> Some (Inl NilDereference, [])
      | Some s \<Rightarrow> Space_IsColliding_range call s shape)"

section \<open>Circle against any shape\<close>

text \<open>
  \<^verbatim>\<open>func (c *Circle) IsColliding(other Shape) bool\<close>, with the receiver \<open>c\<close>, a pointer. The
  type switch is on the dynamic type of \<open>other\<close>; a case that reads a field of \<open>c\<close> or of
  \<open>other\<close> panics when that pointer is nil. For a Space the method calls
  \<^verbatim>\<open>Space.IsColliding\<close>, which in turn calls through the interface (\<open>call\<close>) and may not
  return. Every other type, and the nil interface, is answered by the warning and \<open>false\<close>.
\<close>

definition Circle_IsColliding ::
  "(ref \<Rightarrow> ref \<Rightarrow> verdict option) \<Rightarrow> heap \<Rightarrow> ref \<Rightarrow> ref \<Rightarrow> verdict option" where
  "Circle_IsColliding call h c other =
     (case type_of h other of
        Some CircleKind \<Rightarrow>
          (case (circle_at h c, circle_at h other) of
             (Some c', Some b) \<Rightarrow>
               Some (Inr (Distance (X c') (Y c') (X b) (Y b) \<le>s Radius c' + Radius b), [])
           | _ \<Rightarrow> Some (Inl NilDereference, []))
      | Some RectangleKind \<Rightarrow>
          (case (circle_at h c, rectangle_at h other) of
             (Some c', Some b) \<Rightarrow>
               (let closestX = (if X c' <s X b then X b
                                else if X b + W b <s X c' then X b + W b
                                else X c');
                    closestY = (if Y c' <s Y b then Y b
                                else if Y b + H b <s Y c' then Y b + H b
                                else Y c')
                in Some (Inr (Distance (X c') (Y c') closestX closestY \<le>s Radius c'), []))
           | _ \<Rightarrow> Some (Inl NilDereference, []))
      | Some LineKind \<Rightarrow>
          (case (circle_at h c, line_at h other) of
             (Some c', Some b) \<Rightarrow> Some (Inr (isCollidingWithLine c' b), [])
           | _ \<Rightarrow> Some (Inl NilDereference, []))
      | Some SpaceKind \<Rightarrow> Space_IsColliding call h other c
      | _ \<Rightarrow> Some (Inr False, [NotAValidShape other c]))"

subsection \<open>WouldBeColliding\<close>

text \<open>
  \<^verbatim>\<open>func (c *Circle) WouldBeColliding(other Shape, dx, dy int32) bool\<close>: the four
  assignments to \<^verbatim>\<open>c.X\<close> and \<^verbatim>\<open>c.Y\<close> are writes to the heap through the receiver, and
  \<^verbatim>\<open>c.IsColliding(other)\<close> runs on the heap in between. The method defers nothing: a panic
  in \<^verbatim>\<open>c.IsColliding(other)\<close> ends it before the last two assignments. \<open>call h\<close> are the
  calls of \<^verbatim>\<open>IsColliding\<close> through the interface on the heap \<open>h\<close>. The result is the verdict
  and the heap the caller finds.
\<close>

definition Circle_WouldBeColliding ::
  "(heap \<Rightarrow> ref \<Rightarrow> ref \<Rightarrow> verdict option) \<Rightarrow> heap \<Rightarrow> ref \<Rightarrow> ref \<Rightarrow> int32 \<Rightarrow> int32
     \<Rightarrow> (verdict \<times> heap) option" where
  "Circle_WouldBeColliding call h c other dx dy =
     (case circle_at h c of
        None \<Rightarrow> Some ((Inl NilDereference, []), h)
      | Some c0 \<Rightarrow>
          (let c1 = c0\<lparr>X := X c0 + dx\<rparr>; h1 = store h c (CircleShape c1);
               c2 = c1\<lparr>Y := Y c1 + dy\<rparr>; h2 = store h1 c (CircleShape c2)
           in case Circle_IsColliding (call h2) h2 c other of
                None \<Rightarrow> None
              | Some (Inl p, ws) \<Rightarrow> Some ((Inl p, ws), h2)
              | Some (Inr isColliding, ws) \<Rightarrow>
                  (let c3 = c2\<lparr>X := X c2 - dx\<rparr>; h3 = store h2 c (CircleShape c3);
                       c4 = c3\<lparr>Y := Y c3 - dy\<rparr>; h4 = store h3 c (CircleShape c4)
                   in Some ((Inr isColliding, ws), h4))))"

subsection \<open>Methods that are not among the sources\<close>

text \<open>
  The methods of Rectangle and Line that test collisions, and every method of a further
  implementation of the interface, are not among the sources. They are parameters of the
  model: how they end (if they end) on a heap, and for those that may write, the heap they
  leave.
\<close>

record foreign =
  foreign_IsColliding :: "heap \<Rightarrow> ref \<Rightarrow> ref \<Rightarrow> verdict option"
  foreign_WouldBeColliding :: "heap \<Rightarrow> ref \<Rightarrow> ref \<Rightarrow> int32 \<Rightarrow> int32 \<Rightarrow> (verdict \<times> heap) option"
  foreign_GetXY :: "heap \<Rightarrow> ref \<Rightarrow> (panic + int32 \<times> int32) option"
  foreign_Move :: "heap \<Rightarrow> ref \<Rightarrow> int32 \<Rightarrow> int32 \<Rightarrow> (panic option \<times> heap) option"

subsection \<open>Calls through the interface\<close>

text \<open>
  \<^verbatim>\<open>a.IsColliding(b)\<close> for a \<^verbatim>\<open>Shape\<close> \<open>a\<close> dispatches on the dynamic type of \<open>a\<close>, and panics for
  the nil interface. \<^verbatim>\<open>Circle.IsColliding\<close> and \<^verbatim>\<open>Space.IsColliding\<close> call each other, and
  the calls need not end (a Space can hold itself through another Space). The first
  argument bounds the depth of the nested calls; \<open>None\<close> says that the call has not ended
  within that depth.
\<close>

fun IsColliding :: "foreign \<Rightarrow> nat \<Rightarrow> heap \<Rightarrow> ref \<Rightarrow> ref \<Rightarrow> verdict option" where
  "IsColliding ext 0 h a b = None"
| "IsColliding ext (Suc n) h a b =
     (case type_of h a of
        None \<Rightarrow> Some (Inl NilDereference, [])
      | Some CircleKind \<Rightarrow> Circle_IsColliding (IsColliding ext n h) h a b
      | Some SpaceKind \<Rightarrow> Space_IsColliding (IsColliding ext n h) h a b
      | Some _ \<Rightarrow> foreign_IsColliding ext h a b)"

subsection \<open>WouldBeColliding\<close>

text \<open>
  \<^verbatim>\<open>func (sp *Space) WouldBeColliding(other Shape, dx, dy int32) bool\<close>: the loop over the
  members; \<open>wbc h shape\<close> is the call \<^verbatim>\<open>shape.WouldBeColliding(other, dx, dy)\<close> on the heap
  \<open>h\<close>, and the heap it leaves is the heap of the next round. A panic in a call ends the
  loop.
\<close>

fun Space_WouldBeColliding_range ::
  "(heap \<Rightarrow> ref \<Rightarrow> (verdict \<times> heap) option) \<Rightarrow> heap \<Rightarrow> ref list \<Rightarrow> ref \<Rightarrow> (verdict \<times> heap) option" where
  "Space_WouldBeColliding_range wbc h [] other = Some ((Inr False, []), h)"
| "Space_WouldBeColliding_range wbc h (shape # sp) other =
     (if shape = other then Some ((Inr False, []), h)
      else (case wbc h shape of
              None \<Rightarrow> None
            | Some ((Inl p, ws), h') \<Rightarrow> Some ((Inl p, ws), h')
            | Some ((Inr b, ws), h') \<Rightarrow>
                if b then Some ((Inr True, ws), h')
                else (case Space_WouldBeColliding_range wbc h' sp other of
                        None \<Rightarrow> None
                      | Some ((r, ws'), h'') \<Rightarrow> Some ((r, ws @ ws'), h''))))"

definition Space_WouldBeColliding ::
  "(heap \<Rightarrow> ref \<Rightarrow> (verdict \<times> heap) option) \<Rightarrow> heap \<Rightarrow> ref \<Rightarrow> ref \<Rightarrow> (verdict \<times> heap) option" where
  "Space_WouldBeColliding wbc h sp other =
     (case space_at h sp of
        None \<Rightarrow> Some ((Inl NilDereference, []), h)
      | Some s \<Rightarrow> Space_WouldBeColliding_range wbc h s other)"

fun WouldBeColliding ::
  "foreign \<Rightarrow> nat \<Rightarrow> heap \<Rightarrow> ref \<Rightarrow> ref \<Rightarrow> int32 \<Rightarrow> int32 \<Rightarrow> (verdict \<times> heap) option" where
  "WouldBeColliding ext 0 h a other dx dy = None"
| "WouldBeColliding ext (Suc n) h a other dx dy =
     (case type_of h a of
        None \<Rightarrow> Some ((Inl NilDereference, []), h)
      | Some CircleKind \<Rightarrow> Circle_WouldBeColliding (IsColliding ext n) h a other dx dy
      | Some SpaceKind \<Rightarrow>
          Space_WouldBeColliding (\<lambda>h' shape. WouldBeColliding ext n h' shape other dx dy) h a other
      | Some _ \<Rightarrow> foreign_WouldBeColliding ext h a other dx dy)"

subsection \<open>GetXY, Move and SetXY\<close>

text \<open>
  Modelled from the spec: \<^verbatim>\<open>GetXY\<close> and \<^verbatim>\<open>Move\<close> of \<^verbatim>\<open>BasicShape\<close>, which Circle and Rectangle
  inherit and whose source is not among the sources ("a shape's position is always exactly
  the coordinates last set via move/set"; "move by a delta"): the position is \<open>(X, Y)\<close> and
  a move adds the delta to it, with the wrap-around of \<^verbatim>\<open>int32\<close>.
\<close>

definition BasicShape_GetXY :: "'a BasicShape_scheme \<Rightarrow> int32 \<times> int32" where
  "BasicShape_GetXY s = (X s, Y s)"

definition BasicShape_Move :: "'a BasicShape_scheme \<Rightarrow> int32 \<Rightarrow> int32 \<Rightarrow> 'a BasicShape_scheme" where
  "BasicShape_Move s dx dy = s\<lparr>X := X s + dx, Y := Y s + dy\<rparr>"

text \<open>
  Modelled from the spec: \<^verbatim>\<open>Move\<close> of a Line, whose source is not among the sources. The
  segment has a second end point, which moves with the first.
\<close>

definition Line_Move :: "Line \<Rightarrow> int32 \<Rightarrow> int32 \<Rightarrow> Line" where
  "Line_Move l dx dy = l\<lparr>X := X l + dx, Y := Y l + dy, X2 := X2 l + dx, Y2 := Y2 l + dy\<rparr>"

text \<open>
  \<^verbatim>\<open>func (sp *Space) GetXY() (int32, int32)\<close>; \<open>getXY\<close> is the call through the interface.
\<close>

definition Space_GetXY ::
  "(ref \<Rightarrow> (panic + int32 \<times> int32) option) \<Rightarrow> heap \<Rightarrow> ref \<Rightarrow> (panic + int32 \<times> int32) option" where
  "Space_GetXY getXY h sp =
     (case space_at h sp of
        None \<Rightarrow> Some (Inl NilDereference)
      | Some s \<Rightarrow> if length s > 0 then getXY (s ! 0) else Some (Inr (0, 0)))"

text \<open>
  \<^verbatim>\<open>func (sp *Space) Move(dx, dy int32)\<close>: the loop over the members; \<open>move h shape\<close> is the
  call \<^verbatim>\<open>shape.Move(dx, dy)\<close> on the heap \<open>h\<close>. A panic in a call ends the loop.
\<close>

fun Space_Move_range ::
  "(heap \<Rightarrow> ref \<Rightarrow> (panic option \<times> heap) option) \<Rightarrow> heap \<Rightarrow> ref list \<Rightarrow> (panic option \<times> heap) option" where
  "Space_Move_range move h [] = Some (None, h)"
| "Space_Move_range move h (shape # sp) =
     (case move h shape of
        None \<Rightarrow> None
      | Some (Some p, h') \<Rightarrow> Some (Some p, h')
      | Some (None, h') \<Rightarrow> Space_Move_range move h' sp)"

definition Space_Move ::
  "(heap \<Rightarrow> ref \<Rightarrow> (panic option \<times> heap) option) \<Rightarrow> heap \<Rightarrow> ref \<Rightarrow> (panic option \<times> heap) option" where
  "Space_Move move h sp =
     (case space_at h sp of
        None \<Rightarrow> Some (Some NilDereference, h)
      | Some s \<Rightarrow> Space_Move_range move h s)"

text \<open>
  The calls through the interface. A method of \<^verbatim>\<open>BasicShape\<close> reads the fields of its
  receiver and panics for a nil pointer.
\<close>

fun GetXY :: "foreign \<Rightarrow> nat \<Rightarrow> heap \<Rightarrow> ref \<Rightarrow> (panic + int32 \<times> int32) option" where
  "GetXY ext 0 h a = None"
| "GetXY ext (Suc n) h a =
     (case type_of h a of
        None \<Rightarrow> Some (Inl NilDereference)
      | Some CircleKind \<Rightarrow>
          (case circle_at h a of
             None \<Rightarrow> Some (Inl NilDereference) | Some c \<Rightarrow> Some (Inr (BasicShape_GetXY c)))
      | Some RectangleKind \<Rightarrow>
          (case rectangle_at h a of
             None \<Rightarrow> Some (Inl NilDereference) | Some r \<Rightarrow> Some (Inr (BasicShape_GetXY r)))
      | Some LineKind \<Rightarrow>
          (case line_at h a of
             None \<Rightarrow> Some (Inl NilDereference) | Some l \<Rightarrow> Some (Inr (BasicShape_GetXY l)))
      | Some SpaceKind \<Rightarrow> Space_GetXY (GetXY ext n h) h a
      | Some OtherKind \<Rightarrow> foreign_GetXY ext h a)"

fun Move :: "foreign \<Rightarrow> nat \<Rightarrow> heap \<Rightarrow> ref \<Rightarrow> int32 \<Rightarrow> int32 \<Rightarrow> (panic option \<times> heap) option" where
  "Move ext 0 h a dx dy = None"
| "Move ext (Suc n) h a dx dy =
     (case type_of h a of
        None \<Rightarrow> Some (Some NilDereference, h)
      | Some CircleKind \<Rightarrow>
          (case circle_at h a of
             None \<Rightarrow> Some (Some NilDereference, h)
           | Some c \<Rightarrow> Some (None, store h a (CircleShape (BasicShape_Move c dx dy))))
      | Some RectangleKind \<Rightarrow>
          (case rectangle_at h a of
             None \<Rightarrow> Some (Some NilDereference, h)
           | Some r \<Rightarrow> Some (None, store h a (RectangleShape (BasicShape_Move r dx dy))))
      | Some LineKind \<Rightarrow>
          (case line_at h a of
             None \<Rightarrow> Some (Some NilDereference, h)
           | Some l \<Rightarrow> Some (None, store h a (LineShape (Line_Move l dx dy))))
      | Some SpaceKind \<Rightarrow> Space_Move (\<lambda>h' shape. Move ext n h' shape dx dy) h a
      | Some OtherKind \<Rightarrow> foreign_Move ext h a dx dy)"

text \<open>
  \<^verbatim>\<open>func (sp *Space) SetXY(x, y int32)\<close>, with \<^verbatim>\<open>sp.GetXY()\<close> and the loop of \<^verbatim>\<open>Move\<close> calls.
\<close>

definition Space_SetXY ::
  "(heap \<Rightarrow> ref \<Rightarrow> (panic + int32 \<times> int32) option)
     \<Rightarrow> (heap \<Rightarrow> ref \<Rightarrow> int32 \<Rightarrow> int32 \<Rightarrow> (panic option \<times> heap) option)
     \<Rightarrow> heap \<Rightarrow> ref \<Rightarrow> int32 \<Rightarrow> int32 \<Rightarrow> (panic option \<times> heap) option" where
  "Space_SetXY getXY move h sp x y =
     (case space_at h sp of
        None \<Rightarrow> Some (Some NilDereference, h)
      | Some s \<Rightarrow>
          if length s > 0 then
            (case Space_GetXY (getXY h) h sp of
               None \<Rightarrow> None
             | Some (Inl p) \<Rightarrow> Some (Some p, h)
             | Some (Inr (x0, y0)) \<Rightarrow>
                 (let dx = x - x0; dy = y - y0
                  in Space_Move_range (\<lambda>h' shape. move h' shape dx dy) h s))
          else Some (None, h))"

subsection \<open>Auxiliary notions\<close>

text \<open>
  A program without further implementations of the interface: their methods are never
  called, and the parameter that stands for them returns nothing.
\<close>

definition no_foreign :: foreign where
  "no_foreign =
     \<lparr>foreign_IsColliding = (\<lambda>_ _ _. None),
      foreign_WouldBeColliding = (\<lambda>_ _ _ _ _. None),
      foreign_GetXY = (\<lambda>_ _. None),
      foreign_Move = (\<lambda>_ _ _ _. None)\<rparr>"

text \<open>The shapes with a position of their own, and such a shape after a move.\<close>

fun is_basic :: "Shape \<Rightarrow> bool" where
  "is_basic (CircleShape _) = True"
| "is_basic (RectangleShape _) = True"
| "is_basic (LineShape _) = True"
| "is_basic _ = False"

fun moved :: "int32 \<Rightarrow> int32 \<Rightarrow> Shape \<Rightarrow> Shape" where
  "moved dx dy (CircleShape c) = CircleShape (BasicShape_Move c dx dy)"
| "moved dx dy (RectangleShape r) = RectangleShape (BasicShape_Move r dx dy)"
| "moved dx dy (LineShape l) = LineShape (Line_Move l dx dy)"
| "moved dx dy s = s"

fun position :: "Shape \<Rightarrow> int32 \<times> int32" where
  "position (CircleShape c) = BasicShape_GetXY c"
| "position (RectangleShape r) = BasicShape_GetXY r"
| "position (LineShape l) = BasicShape_GetXY l"
| "position _ = (0, 0)"

text \<open>The heap after a move of each of the objects listed.\<close>

definition move_all :: "int32 \<Rightarrow> int32 \<Rightarrow> addr list \<Rightarrow> heap \<Rightarrow> heap" where
  "move_all dx dy ls h = (\<lambda>a. if a \<in> set ls then moved dx dy (h a) else h a)"

text \<open>
  The circles, rectangles and lines that the \<^verbatim>\<open>Move\<close> calls on a shape reach, in the order
  of the calls and as often as they are reached: the shape itself, or for a Space those of
  its members, one after the other. There are none (\<open>None\<close>) when the calls reach a nil
  value, an empty Space or a further implementation of the interface, or do not end within
  the depth given.
\<close>

fun concat_options :: "'a list option list \<Rightarrow> 'a list option" where
  "concat_options [] = Some []"
| "concat_options (None # xs) = None"
| "concat_options (Some l # xs) =
     (case concat_options xs of None \<Rightarrow> None | Some ls \<Rightarrow> Some (l @ ls))"

fun reached :: "nat \<Rightarrow> heap \<Rightarrow> ref \<Rightarrow> addr list option" where
  "reached 0 h a = None"
| "reached (Suc n) h (Ptr p) =
     (case h p of
        SpaceShape sp \<Rightarrow> (if sp = [] then None else concat_options (map (reached n h) sp))
      | OtherShape \<Rightarrow> None
      | _ \<Rightarrow> Some [p])"
| "reached (Suc n) h _ = None"

section \<open>Reference notions of the specification\<close>

text \<open>
  The Euclidean distance of two points with integer coordinates, as a real number: the
  "center distance" of the circle-circle rule.
\<close>

definition sq_dist :: "int \<Rightarrow> int \<Rightarrow> int \<Rightarrow> int \<Rightarrow> int" where
  "sq_dist x y x2 y2 = (x - x2) * (x - x2) + (y - y2) * (y - y2)"

definition euclid :: "int \<Rightarrow> int \<Rightarrow> int \<Rightarrow> int \<Rightarrow> real" where
  "euclid x y x2 y2 = sqrt (real_of_int (sq_dist x y x2 y2))"

definition centre_distance :: "Circle \<Rightarrow> Circle \<Rightarrow> real" where
  "centre_distance c b = euclid (sint (X c)) (sint (Y c)) (sint (X b)) (sint (Y b))"

text \<open>
  The circle-rectangle rule: the centre's \<open>X\<close> clamped to \<open>[rect.X, rect.X+W]\<close>, its \<open>Y\<close> to
  \<open>[rect.Y, rect.Y+H]\<close>, and the distance from the centre to that point.
\<close>

definition clamp :: "int \<Rightarrow> int \<Rightarrow> int \<Rightarrow> int" where
  "clamp lo hi v = max lo (min hi v)"

definition clamped_distance :: "Circle \<Rightarrow> Rectangle \<Rightarrow> real" where
  "clamped_distance c b =
     euclid (sint (X c)) (sint (Y c))
       (clamp (sint (X b)) (sint (X b) + sint (W b)) (sint (X c)))
       (clamp (sint (Y b)) (sint (Y b) + sint (H b)) (sint (Y c)))"

text \<open>
  The circle-line rule is to agree with "a direct segment-to-point-distance formula": the
  centre is projected on the line of the segment, the parameter of the projection is
  clamped to the segment, and the distance from the centre to that point of the segment
  is compared with the radius. That distance is the least distance from the centre to a
  point of the segment (\<open>point_segment_distance_least\<close> below).
\<close>

definition point_segment_distance :: "real \<Rightarrow> real \<Rightarrow> real \<Rightarrow> real \<Rightarrow> real \<Rightarrow> real \<Rightarrow> real" where
  "point_segment_distance ax ay bx by px py =
     (let dx = bx - ax; dy = by - ay;
          len2 = dx * dx + dy * dy;
          t = (if len2 = 0 then 0
               else max 0 (min 1 (((px - ax) * dx + (py - ay) * dy) / len2)));
          qx = ax + t * dx; qy = ay + t * dy
      in sqrt ((px - qx) * (px - qx) + (py - qy) * (py - qy)))"

definition segment_distance :: "Line \<Rightarrow> Circle \<Rightarrow> real" where
  "segment_distance l c =
     point_segment_distance
       (real_of_int (sint (X l))) (real_of_int (sint (Y l)))
       (real_of_int (sint (X2 l))) (real_of_int (sint (Y2 l)))
       (real_of_int (sint (X c))) (real_of_int (sint (Y c)))"

definition reference_IsColliding :: "Circle \<Rightarrow> Line \<Rightarrow> bool" where
  "reference_IsColliding c l = (segment_distance l c \<le> real_of_int (sint (Radius c)))"

section \<open>Integer square roots and distances\<close>

lemma floor_sqrt_eq:
  assumes "0 \<le> k" "k * k \<le> n" "n < (k + 1) * (k + 1)"
  shows "\<lfloor>sqrt (real_of_int n)\<rfloor> = k"
proof (rule floor_unique)
  have "real_of_int k = sqrt (real_of_int (k * k))" using assms(1) by (simp add: real_sqrt_mult)
  also have "\<dots> \<le> sqrt (real_of_int n)" using assms(2) by (simp only: real_sqrt_le_iff of_int_le_iff)
  finally show "real_of_int k \<le> sqrt (real_of_int n)" .
  have "sqrt (real_of_int n) < sqrt (real_of_int ((k + 1) * (k + 1)))"
    using assms(3) by (simp only: real_sqrt_less_iff of_int_less_iff)
  also have "\<dots> = real_of_int k + 1" using assms(1) by (simp add: real_sqrt_mult)
  finally show "sqrt (real_of_int n) < real_of_int k + 1" .
qed

lemma floor_sqrt_le_iff:
  assumes "0 \<le> R"
  shows "\<lfloor>sqrt (real_of_int n)\<rfloor> \<le> R \<longleftrightarrow> n < (R + 1) * (R + 1)"
proof -
  have "\<lfloor>sqrt (real_of_int n)\<rfloor> \<le> R \<longleftrightarrow> \<lfloor>sqrt (real_of_int n)\<rfloor> < R + 1"
    by linarith
  also have "\<dots> \<longleftrightarrow> sqrt (real_of_int n) < real_of_int (R + 1)"
    by (rule floor_less_iff)
  also have "real_of_int (R + 1) = sqrt (real_of_int ((R + 1) * (R + 1)))"
    using assms by (simp add: real_sqrt_mult)
  also have "sqrt (real_of_int n) < sqrt (real_of_int ((R + 1) * (R + 1))) \<longleftrightarrow> n < (R + 1) * (R + 1)"
    by (simp only: real_sqrt_less_iff of_int_less_iff)
  finally show ?thesis .
qed

lemma floor_sqrt_bound:
  assumes "n < 2 ^ 31"
  shows "\<lfloor>sqrt (real_of_int n)\<rfloor> < 2 ^ 31"
proof -
  have "\<lfloor>sqrt (real_of_int n)\<rfloor> \<le> 46340"
    using assms by (subst floor_sqrt_le_iff) auto
  then show ?thesis by simp
qed

lemma sqrt_gt_intI:
  assumes "0 \<le> k" "k * k < n"
  shows "real_of_int k < sqrt (real_of_int n)"
proof -
  have "real_of_int k = sqrt (real_of_int (k * k))"
    using assms(1) by (simp add: real_sqrt_mult)
  also have "\<dots> < sqrt (real_of_int n)"
    using assms(2) by (simp only: real_sqrt_less_iff of_int_less_iff)
  finally show ?thesis .
qed

lemma sq_dist_nonneg: "0 \<le> sq_dist x y x2 y2"
  by (simp add: sq_dist_def)

lemma sint_word_of_int32:
  assumes "0 \<le> k" "k < 2 ^ 31"
  shows "sint (word_of_int k :: int32) = k"
proof -
  have "- (2 ^ 31) \<le> k" using assms(1) by simp
  then show ?thesis
    using assms(2) by (simp add: sint_sbintrunc' signed_take_bit_int_eq_self)
qed

lemma sint_add32:
  assumes "- (2 ^ 31) \<le> sint a + sint b" "sint a + sint b < 2 ^ 31"
  shows "sint (a + b :: int32) = sint a + sint b"
  using assms by (simp add: sint_word_add signed_take_bit_int_eq_self)

lemma Distance_sq_dist:
  "Distance x y x2 y2 = word_of_int \<lfloor>euclid (sint x) (sint y) (sint x2) (sint y2)\<rfloor>"
  by (simp add: Distance_def euclid_def sq_dist_def Let_def)

lemma sint_Distance:
  assumes "sq_dist (sint x) (sint y) (sint x2) (sint y2) < 2 ^ 31"
  shows "sint (Distance x y x2 y2) = \<lfloor>euclid (sint x) (sint y) (sint x2) (sint y2)\<rfloor>"
proof -
  have a: "0 \<le> \<lfloor>euclid (sint x) (sint y) (sint x2) (sint y2)\<rfloor>"
    unfolding euclid_def using sq_dist_nonneg [of "sint x" "sint y" "sint x2" "sint y2"] by simp
  have b: "\<lfloor>euclid (sint x) (sint y) (sint x2) (sint y2)\<rfloor> < 2 ^ 31"
    unfolding euclid_def using assms by (rule floor_sqrt_bound)
  show ?thesis
    unfolding Distance_sq_dist by (rule sint_word_of_int32 [OF a b])
qed

lemma Distance_eqI:
  assumes "sq_dist (sint x) (sint y) (sint x2) (sint y2) = n"
    and "0 \<le> k" "k * k \<le> n" "n < (k + 1) * (k + 1)"
  shows "Distance x y x2 y2 = word_of_int k"
  unfolding Distance_sq_dist euclid_def using assms floor_sqrt_eq [of k n] by simp

lemma Distance_self: "Distance x y x y = 0"
  by (simp add: Distance_def)

lemma floor_euclid_le_iff:
  assumes "0 \<le> R"
  shows "\<lfloor>euclid x y x2 y2\<rfloor> \<le> R \<longleftrightarrow> sq_dist x y x2 y2 < (R + 1) * (R + 1)"
  unfolding euclid_def using assms by (rule floor_sqrt_le_iff)

section \<open>Circle against Circle and Rectangle\<close>

text \<open>
  Claim C2, as the code has it. For two circles with non-negative radii whose sum fits an
  \<^verbatim>\<open>int32\<close> and whose centres have a squared distance that fits an \<^verbatim>\<open>int32\<close>,
  \<^verbatim>\<open>Circle.IsColliding\<close> returns true if and only if the integer part of the distance between
  the centres is at most the sum of the radii, that is, if and only if the distance is less
  than the sum of the radii plus one. Touching circles collide, and so do circles less than
  one unit apart. Nothing is printed.
\<close>
theorem Circle_IsColliding_Circle:
  assumes "h p = CircleShape c" and "h q = CircleShape b"
    and "0 \<le> sint (Radius c)" and "0 \<le> sint (Radius b)"
    and "sint (Radius c) + sint (Radius b) < 2 ^ 31"
    and "sq_dist (sint (X c)) (sint (Y c)) (sint (X b)) (sint (Y b)) < 2 ^ 31"
  shows "Circle_IsColliding call h (Ptr p) (Ptr q) =
           Some (Inr (\<lfloor>centre_distance c b\<rfloor> \<le> sint (Radius c) + sint (Radius b)), [])
         \<and> (\<lfloor>centre_distance c b\<rfloor> \<le> sint (Radius c) + sint (Radius b)
              \<longleftrightarrow> centre_distance c b < real_of_int (sint (Radius c) + sint (Radius b)) + 1)"
proof -
  have r: "sint (Radius c + Radius b) = sint (Radius c) + sint (Radius b)"
    using assms(3-5) by (intro sint_add32) simp_all
  have d: "sint (Distance (X c) (Y c) (X b) (Y b)) = \<lfloor>centre_distance c b\<rfloor>"
    unfolding centre_distance_def using assms(6) by (rule sint_Distance)
  have "Circle_IsColliding call h (Ptr p) (Ptr q) =
          Some (Inr (Distance (X c) (Y c) (X b) (Y b) \<le>s Radius c + Radius b), [])"
    by (simp add: Circle_IsColliding_def assms(1,2))
  also have "(Distance (X c) (Y c) (X b) (Y b) \<le>s Radius c + Radius b) =
      (\<lfloor>centre_distance c b\<rfloor> \<le> sint (Radius c) + sint (Radius b))"
    by (simp only: word_sle_eq r d)
  finally have 1: "Circle_IsColliding call h (Ptr p) (Ptr q) =
           Some (Inr (\<lfloor>centre_distance c b\<rfloor> \<le> sint (Radius c) + sint (Radius b)), [])" .
  have 2: "\<lfloor>centre_distance c b\<rfloor> \<le> sint (Radius c) + sint (Radius b)
              \<longleftrightarrow> centre_distance c b < real_of_int (sint (Radius c) + sint (Radius b)) + 1"
    by linarith
  show ?thesis using 1 2 by (rule conjI)
qed

text \<open>
  The two scenarios of the specification: the circles at \<open>(0,0)\<close> and \<open>(10,0)\<close> with radius 5
  collide, those at \<open>(0,0)\<close> and \<open>(11,0)\<close> do not.
\<close>

theorem Circle_IsColliding_Circle_witness:
  "Circle_IsColliding (\<lambda>_ _. None)
      (empty_heap(0 := CircleShape \<lparr>X = 0, Y = 0, Radius = 5\<rparr>,
                  1 := CircleShape \<lparr>X = 10, Y = 0, Radius = 5\<rparr>)) (Ptr 0) (Ptr 1) =
     Some (Inr True, [])
   \<and> Circle_IsColliding (\<lambda>_ _. None)
      (empty_heap(0 := CircleShape \<lparr>X = 0, Y = 0, Radius = 5\<rparr>,
                  1 := CircleShape \<lparr>X = 11, Y = 0, Radius = 5\<rparr>)) (Ptr 0) (Ptr 1) =
     Some (Inr False, [])"
proof -
  let ?c = "\<lparr>X = 0, Y = 0, Radius = 5\<rparr> :: Circle"
  let ?b = "\<lparr>X = 10, Y = 0, Radius = 5\<rparr> :: Circle"
  let ?b' = "\<lparr>X = 11, Y = 0, Radius = 5\<rparr> :: Circle"
  let ?h = "empty_heap(0 := CircleShape ?c, 1 := CircleShape ?b)"
  let ?h' = "empty_heap(0 := CircleShape ?c, 1 := CircleShape ?b')"
  have t: "\<lfloor>centre_distance ?c ?b\<rfloor> \<le> 10"
    unfolding centre_distance_def by (subst floor_euclid_le_iff) (simp_all add: sq_dist_def)
  have f: "\<not> \<lfloor>centre_distance ?c ?b'\<rfloor> \<le> 10"
    unfolding centre_distance_def by (subst floor_euclid_le_iff) (simp_all add: sq_dist_def)
  have "Circle_IsColliding (\<lambda>_ _. None) ?h (Ptr 0) (Ptr 1) =
          Some (Inr (\<lfloor>centre_distance ?c ?b\<rfloor> \<le> sint (Radius ?c) + sint (Radius ?b)), [])"
    using Circle_IsColliding_Circle [where h = ?h and p = 0 and c = ?c and q = 1 and b = ?b
        and call = "\<lambda>_ _. None"]
    by (simp add: sq_dist_def)
  moreover have "Circle_IsColliding (\<lambda>_ _. None) ?h' (Ptr 0) (Ptr 1) =
          Some (Inr (\<lfloor>centre_distance ?c ?b'\<rfloor> \<le> sint (Radius ?c) + sint (Radius ?b')), [])"
    using Circle_IsColliding_Circle [where h = ?h' and p = 0 and c = ?c and q = 1 and b = ?b'
        and call = "\<lambda>_ _. None"]
    by (simp add: sq_dist_def)
  ultimately show ?thesis using t f by simp
qed

text \<open>
  With the distance of the plane, C2 fails: the circles at \<open>(0,0)\<close> and \<open>(2,1)\<close> with
  radius 1 are \<open>sqrt 5 > 2\<close> apart and collide for the code; two circles of radius \<open>2^30\<close> at
  the same point do not collide for the code, since the sum of the radii wraps around.
\<close>

theorem Circle_IsColliding_Circle_counterexample:
  "Circle_IsColliding (\<lambda>_ _. None)
      (empty_heap(0 := CircleShape \<lparr>X = 0, Y = 0, Radius = 1\<rparr>,
                  1 := CircleShape \<lparr>X = 2, Y = 1, Radius = 1\<rparr>)) (Ptr 0) (Ptr 1) =
     Some (Inr True, [])
   \<and> \<not> centre_distance \<lparr>X = 0, Y = 0, Radius = 1\<rparr> \<lparr>X = 2, Y = 1, Radius = 1\<rparr> \<le> 1 + 1
   \<and> Circle_IsColliding (\<lambda>_ _. None)
      (empty_heap(0 := CircleShape \<lparr>X = 0, Y = 0, Radius = 1073741824\<rparr>,
                  1 := CircleShape \<lparr>X = 0, Y = 0, Radius = 1073741824\<rparr>)) (Ptr 0) (Ptr 1) =
     Some (Inr False, [])
   \<and> centre_distance \<lparr>X = 0, Y = 0, Radius = 1073741824\<rparr>
        \<lparr>X = 0, Y = 0, Radius = 1073741824\<rparr> \<le> 1073741824 + 1073741824"
proof -
  have d: "Distance 0 0 2 1 = 2"
    by (rule Distance_eqI [where k = 2 and n = 5, simplified]) (simp_all add: sq_dist_def)
  have 1: "Circle_IsColliding (\<lambda>_ _. None)
      (empty_heap(0 := CircleShape \<lparr>X = 0, Y = 0, Radius = 1\<rparr>,
                  1 := CircleShape \<lparr>X = 2, Y = 1, Radius = 1\<rparr>)) (Ptr 0) (Ptr 1) =
     Some (Inr True, [])"
    by (simp add: Circle_IsColliding_def d)
  have "real_of_int 2 < sqrt (real_of_int 5)"
    by (rule sqrt_gt_intI) simp_all
  then have 2: "\<not> centre_distance \<lparr>X = 0, Y = 0, Radius = 1\<rparr> \<lparr>X = 2, Y = 1, Radius = 1\<rparr> \<le> 1 + 1"
    by (simp add: centre_distance_def euclid_def sq_dist_def)
  have 3: "Circle_IsColliding (\<lambda>_ _. None)
      (empty_heap(0 := CircleShape \<lparr>X = 0, Y = 0, Radius = 1073741824\<rparr>,
                  1 := CircleShape \<lparr>X = 0, Y = 0, Radius = 1073741824\<rparr>)) (Ptr 0) (Ptr 1) =
     Some (Inr False, [])"
    by (simp add: Circle_IsColliding_def Distance_self word_sle_eq)
  have 4: "centre_distance \<lparr>X = 0, Y = 0, Radius = 1073741824\<rparr>
        \<lparr>X = 0, Y = 0, Radius = 1073741824\<rparr> \<le> 1073741824 + 1073741824"
    by (simp add: centre_distance_def euclid_def sq_dist_def)
  show ?thesis using 1 2 3 4 by blast
qed

lemma sint_closest:
  assumes "0 \<le> sint w" "sint lo + sint w < 2 ^ 31"
  shows "sint (if v <s lo then lo else if lo + w <s v then lo + w else v :: int32) =
         clamp (sint lo) (sint lo + sint w) (sint v)"
proof -
  have "- (2 ^ 31) \<le> sint lo" using sint_ge [of lo] by simp
  then have "sint (lo + w) = sint lo + sint w"
    using assms by (intro sint_add32) simp_all
  then show ?thesis
    using assms(1) by (simp add: word_sless_alt clamp_def max_def min_def)
qed

text \<open>
  Claim C3, as the code has it. For a rectangle with \<open>W, H \<ge> 0\<close> whose far corner fits an
  \<^verbatim>\<open>int32\<close>, and a circle whose squared distance to the clamped point fits an \<^verbatim>\<open>int32\<close>,
  \<^verbatim>\<open>Circle.IsColliding\<close> returns true if and only if the integer part of the distance from the
  centre to the point obtained by clamping the centre's \<open>X\<close> into \<open>[r.X, r.X+r.W]\<close> and its \<open>Y\<close>
  into \<open>[r.Y, r.Y+r.H]\<close> is at most the radius. When the centre lies inside the rectangle the
  clamped point is the centre, the distance is 0, and the result is true for a radius that
  is not negative.
\<close>
theorem Circle_IsColliding_Rectangle:
  assumes "h p = CircleShape c" and "h q = RectangleShape b"
    and "0 \<le> sint (W b)" and "0 \<le> sint (H b)"
    and "sint (X b) + sint (W b) < 2 ^ 31" and "sint (Y b) + sint (H b) < 2 ^ 31"
    and "sq_dist (sint (X c)) (sint (Y c))
           (clamp (sint (X b)) (sint (X b) + sint (W b)) (sint (X c)))
           (clamp (sint (Y b)) (sint (Y b) + sint (H b)) (sint (Y c))) < 2 ^ 31"
  shows "Circle_IsColliding call h (Ptr p) (Ptr q) =
           Some (Inr (\<lfloor>clamped_distance c b\<rfloor> \<le> sint (Radius c)), [])
         \<and> (sint (X b) \<le> sint (X c) \<and> sint (X c) \<le> sint (X b) + sint (W b) \<and>
            sint (Y b) \<le> sint (Y c) \<and> sint (Y c) \<le> sint (Y b) + sint (H b) \<and>
            0 \<le> sint (Radius c) \<longrightarrow>
              clamped_distance c b = 0 \<and>
              Circle_IsColliding call h (Ptr p) (Ptr q) = Some (Inr True, []))"
proof -
  let ?cx = "if X c <s X b then X b else if X b + W b <s X c then X b + W b else X c"
  let ?cy = "if Y c <s Y b then Y b else if Y b + H b <s Y c then Y b + H b else Y c"
  have x: "sint ?cx = clamp (sint (X b)) (sint (X b) + sint (W b)) (sint (X c))"
    using assms(3,5) by (rule sint_closest)
  have y: "sint ?cy = clamp (sint (Y b)) (sint (Y b) + sint (H b)) (sint (Y c))"
    using assms(4,6) by (rule sint_closest)
  have "sq_dist (sint (X c)) (sint (Y c)) (sint ?cx) (sint ?cy) < 2 ^ 31"
    unfolding x y using assms(7) .
  then have "sint (Distance (X c) (Y c) ?cx ?cy) =
      \<lfloor>euclid (sint (X c)) (sint (Y c)) (sint ?cx) (sint ?cy)\<rfloor>"
    by (rule sint_Distance)
  then have d: "sint (Distance (X c) (Y c) ?cx ?cy) = \<lfloor>clamped_distance c b\<rfloor>"
    unfolding x y clamped_distance_def .
  have "Circle_IsColliding call h (Ptr p) (Ptr q) =
          Some (Inr (Distance (X c) (Y c) ?cx ?cy \<le>s Radius c), [])"
    by (simp add: Circle_IsColliding_def assms(1,2) Let_def)
  also have "(Distance (X c) (Y c) ?cx ?cy \<le>s Radius c) =
      (\<lfloor>clamped_distance c b\<rfloor> \<le> sint (Radius c))"
    by (simp only: word_sle_eq d)
  finally have 1: "Circle_IsColliding call h (Ptr p) (Ptr q) =
           Some (Inr (\<lfloor>clamped_distance c b\<rfloor> \<le> sint (Radius c)), [])" .
  have 2: "clamped_distance c b = 0"
    if "sint (X b) \<le> sint (X c)" "sint (X c) \<le> sint (X b) + sint (W b)"
       "sint (Y b) \<le> sint (Y c)" "sint (Y c) \<le> sint (Y b) + sint (H b)"
    using that by (simp add: clamped_distance_def euclid_def sq_dist_def clamp_def max_def min_def)
  show ?thesis using 1 2 by simp
qed

text \<open>
  The scenario of the specification: the circle at \<open>(5,5)\<close> with radius 1 collides with the
  rectangle at \<open>(0,0)\<close> of width and height 10.
\<close>

theorem Circle_IsColliding_Rectangle_witness:
  "Circle_IsColliding (\<lambda>_ _. None)
      (empty_heap(0 := CircleShape \<lparr>X = 5, Y = 5, Radius = 1\<rparr>,
                  1 := RectangleShape \<lparr>X = 0, Y = 0, W = 10, H = 10\<rparr>)) (Ptr 0) (Ptr 1) =
     Some (Inr True, [])"
  using Circle_IsColliding_Rectangle
    [where h = "empty_heap(0 := CircleShape \<lparr>X = 5, Y = 5, Radius = 1\<rparr>,
                  1 := RectangleShape \<lparr>X = 0, Y = 0, W = 10, H = 10\<rparr>)"
       and p = 0 and q = 1 and c = "\<lparr>X = 5, Y = 5, Radius = 1\<rparr>"
       and b = "\<lparr>X = 0, Y = 0, W = 10, H = 10\<rparr>" and call = "\<lambda>_ _. None"]
  by (simp add: sq_dist_def clamp_def)

text \<open>
  With the distance of the plane, C3 fails: the circle at \<open>(0,0)\<close> with radius 1 and the
  rectangle at \<open>(1,1)\<close> of width and height 1 have the clamped point \<open>(1,1)\<close> at distance
  \<open>sqrt 2 > 1\<close>, and collide for the code.
\<close>

theorem Circle_IsColliding_Rectangle_counterexample:
  "Circle_IsColliding (\<lambda>_ _. None)
      (empty_heap(0 := CircleShape \<lparr>X = 0, Y = 0, Radius = 1\<rparr>,
                  1 := RectangleShape \<lparr>X = 1, Y = 1, W = 1, H = 1\<rparr>)) (Ptr 0) (Ptr 1) =
     Some (Inr True, [])
   \<and> \<not> clamped_distance \<lparr>X = 0, Y = 0, Radius = 1\<rparr> \<lparr>X = 1, Y = 1, W = 1, H = 1\<rparr> \<le> 1"
proof -
  have d: "Distance 0 0 1 1 = 1"
    by (rule Distance_eqI [where k = 1 and n = 2, simplified]) (simp_all add: sq_dist_def)
  have 1: "Circle_IsColliding (\<lambda>_ _. None)
      (empty_heap(0 := CircleShape \<lparr>X = 0, Y = 0, Radius = 1\<rparr>,
                  1 := RectangleShape \<lparr>X = 1, Y = 1, W = 1, H = 1\<rparr>)) (Ptr 0) (Ptr 1) =
     Some (Inr True, [])"
    by (simp add: Circle_IsColliding_def d word_sless_alt)
  have "real_of_int 1 < sqrt (real_of_int 2)"
    by (rule sqrt_gt_intI) simp_all
  then have 2: "\<not> clamped_distance \<lparr>X = 0, Y = 0, Radius = 1\<rparr> \<lparr>X = 1, Y = 1, W = 1, H = 1\<rparr> \<le> 1"
    by (simp add: clamped_distance_def euclid_def sq_dist_def clamp_def)
  show ?thesis using 1 2 by blast
qed

section \<open>Rounding\<close>

lemma bit_length_bounds:
  "0 < n \<Longrightarrow> 1 \<le> bit_length n \<and> 2 ^ nat (bit_length n - 1) \<le> n \<and> n < 2 ^ nat (bit_length n)"
proof (induction n rule: bit_length.induct)
  case (1 n)
  show ?case
  proof (cases "n = 1")
    case True
    have "bit_length 1 = 1" by (simp add: bit_length.simps [of 1] bit_length.simps [of 0])
    then show ?thesis using True by simp
  next
    case False
    with "1.prems" have pos: "0 < n div 2" by simp
    have "\<not> n \<le> 0" using "1.prems" by simp
    from "1.IH" [OF this pos]
    have b: "1 \<le> bit_length (n div 2)"
      and lo: "2 ^ nat (bit_length (n div 2) - 1) \<le> n div 2"
      and hi: "n div 2 < 2 ^ nat (bit_length (n div 2))" by simp_all
    have eq: "bit_length n = bit_length (n div 2) + 1"
      using "1.prems" by (simp add: bit_length.simps [of n])
    have p: "(2::int) ^ nat (bit_length (n div 2)) = 2 * 2 ^ nat (bit_length (n div 2) - 1)"
      using b by (metis Suc_nat_eq_nat_zadd1 add.commute diff_add_cancel diff_ge_0_iff_ge power_Suc)
    have "(2::int) ^ nat (bit_length (n div 2)) \<le> n"
      unfolding p using lo by linarith
    moreover have "n < 2 * 2 ^ nat (bit_length (n div 2))"
      using hi by linarith
    moreover have "nat (bit_length (n div 2) + 1) = Suc (nat (bit_length (n div 2)))"
      using b by simp
    ultimately show ?thesis unfolding eq using b by simp
  qed
qed

lemma ilog2_of_int:
  assumes "0 < k"
  shows "ilog2 (of_int k) = bit_length k - 1"
proof -
  have one: "bit_length 1 = 1" by (simp add: bit_length.simps [of 1] bit_length.simps [of 0])
  from bit_length_bounds [OF assms]
  have b: "1 \<le> bit_length k" and lo: "2 ^ nat (bit_length k - 1) \<le> k" by simp_all
  have "pow2 (bit_length k - 1) = of_int (2 ^ nat (bit_length k - 1))"
    using b by (simp add: pow2_def)
  also have "\<dots> \<le> of_int k" using lo by (simp only: of_int_le_iff)
  finally show ?thesis
    by (simp add: ilog2_def quotient_of_int one)
qed

lemma nearest_even_of_int: "nearest_even (of_int j) = j"
  by (simp add: nearest_even_def)

lemma round64_of_int:
  assumes "0 \<le> k" and "k < 2 ^ 53"
  shows "round64 s (of_int k) = Finite s (of_int k)"
proof (cases "k = 0")
  case True
  then show ?thesis by (simp add: round64_def)
next
  case False
  with assms have pos: "0 < k" by simp
  define b where "b = bit_length k"
  from bit_length_bounds [OF pos]
  have b1: "1 \<le> b" and lo: "2 ^ nat (b - 1) \<le> k" by (simp_all add: b_def)
  have "(2::int) ^ nat (b - 1) < 2 ^ 53" using lo assms(2) by linarith
  then have "nat (b - 1) < 53" by (simp only: power_strict_increasing_iff [of 2] one_less_numeral_iff semiring_norm)
  then have b53: "b \<le> 53" by linarith
  define j where "j = nat (53 - b)"
  have e: "max (ilog2 (of_int k)) (- 1022) = b - 1"
    using b1 by (simp add: ilog2_of_int [OF pos] b_def)
  have u: "pow2 (b - 1 - 52) = 1 / 2 ^ j"
    using b53 by (auto simp: pow2_def j_def nat_diff_distrib)
  have q: "(of_int k :: rat) / (1 / 2 ^ j) = of_int (k * 2 ^ j)" by simp
  have r: "of_int (nearest_even (of_int k / (1 / 2 ^ j))) * (1 / 2 ^ j) = (of_int k :: rat)"
    unfolding q nearest_even_of_int by simp
  have "(of_int k :: rat) < of_int (2 ^ 1024)"
    using assms(2) by (simp only: of_int_less_iff) simp
  then have big: "\<not> pow2 1024 \<le> (of_int k :: rat)"
    by (simp add: pow2_def)
  have nz: "(of_int k :: rat) \<noteq> 0" using pos by simp
  show ?thesis
    unfolding round64_def Let_def e u r using nz big by simp
qed

section \<open>Circle against Line\<close>

lemma val_of_int: "val (Finite (i < 0) (of_int \<bar>i\<bar>)) = of_int i"
  by simp

lemma f_le_float64_of: "f_le (float64_of a) (float64_of b) = (a \<le>s b)"
  by (simp only: float64_of_def f_le.simps val_of_int of_int_le_iff word_sle_eq)

lemma round64_zero: "round64 s 0 = Finite s 0"
  by (simp add: round64_def)

lemma semi_perimeter_zero_base:
  assumes "0 \<le> k" and "k < 2 ^ 52" and "k = 0 \<longrightarrow> \<not> s"
  shows "semi_perimeter (Finite s (of_int k)) (Finite s (of_int k)) (Finite False 0) =
         Finite s (of_int k)"
proof (cases "k = 0")
  case True
  then show ?thesis using assms(3) by (simp add: semi_perimeter_def two_def round64_zero)
next
  case False
  with assms have pos: "0 < k" and k2: "0 \<le> 2 * k" "2 * k < 2 ^ 53" by simp_all
  have r2: "round64 s (2 * of_int k) = Finite s (2 * of_int k)"
    using round64_of_int [OF k2, of s] by simp
  have r1: "round64 s (of_int k) = Finite s (of_int k)"
    using round64_of_int [of k s] assms by simp
  have a: "f_add (Finite s (of_int k)) (Finite s (of_int k)) = Finite s (2 * of_int k)"
    using pos r2 by (cases s) simp_all
  have b: "f_add (Finite s (2 * of_int k)) (Finite False 0) = Finite s (2 * of_int k)"
    using pos r2 by (cases s) simp_all
  have c: "f_div (Finite s (2 * of_int k)) two = Finite s (of_int k)"
    using r1 by (simp add: two_def)
  show ?thesis unfolding semi_perimeter_def a b c ..
qed

lemma altitude_zero_base:
  assumes "0 \<le> k" and "k < 2 ^ 52" and "k = 0 \<longrightarrow> \<not> s"
  shows "altitude (Finite s (of_int k)) (Finite s (of_int k)) (Finite False 0) = NaN"
proof -
  let ?A = "Finite s (of_int k)"
  have r1: "round64 t (of_int k) = Finite t (of_int k)" for t
    using round64_of_int [of k t] assms by simp
  have d: "f_sub ?A ?A = Finite False 0"
    by (cases s) (simp_all add: f_sub_def)
  have "\<exists>t b. f_sub ?A (Finite False 0) = Finite t b"
    using r1 assms(1) by (cases s; cases "k = 0") (auto simp: f_sub_def Let_def)
  then obtain t b where e: "f_sub ?A (Finite False 0) = Finite t b" by blast
  show ?thesis
    unfolding altitude_def Let_def semi_perimeter_zero_base [OF assms] d e
    by (simp add: round64_zero two_def)
qed

lemma float64_of_form:
  "\<exists>k s. float64_of d = Finite s (of_int k) \<and> 0 \<le> k \<and> k < 2 ^ 52 \<and> (k = 0 \<longrightarrow> \<not> s)"
proof -
  have "- (2 ^ 31) \<le> sint d" "sint d < 2 ^ 31"
    using sint_ge [of d] sint_lt [of d] by simp_all
  then have "\<bar>sint d\<bar> < 2 ^ 52" by simp
  then show ?thesis
    unfolding float64_of_def by (intro exI [of _ "\<bar>sint d\<bar>"] exI [of _ "sint d < 0"]) auto
qed

lemma altitude_degenerate: "altitude (float64_of d) (float64_of d) (Finite False 0) = NaN"
proof -
  from float64_of_form [of d] obtain k s where
    "float64_of d = Finite s (of_int k)" "0 \<le> k" "k < 2 ^ 52" "k = 0 \<longrightarrow> \<not> s" by blast
  then show ?thesis by (simp only: altitude_zero_base)
qed

lemma GetLength_degenerate:
  assumes "X2 l = X l" "Y2 l = Y l"
  shows "GetLength l = 0"
  by (simp add: GetLength_def assms Distance_self)

text \<open>
  Claim C4, as the code has it. For a line of zero length (both end points equal),
  \<^verbatim>\<open>isCollidingWithLine\<close> returns true if and only if the (integer) distance from the end point
  to the centre is at most the radius. The method has no branch for a base of length 0:
  \<open>BA\<close> is 0, and when the end point is outside the circle the altitude
  \<^verbatim>\<open>2 * math.Sqrt(...) / BA\<close> is \<open>0/0\<close>, that is NaN; the result false comes from the
  comparison \<^verbatim>\<open>h <= float64(c.Radius)\<close>, which is false for NaN.
\<close>
theorem isCollidingWithLine_degenerate:
  assumes "X2 l = X l" and "Y2 l = Y l"
  shows "isCollidingWithLine c l = (Distance (X c) (Y c) (X l) (Y l) \<le>s Radius c)
       \<and> float64_of (GetLength l) = Finite False 0
       \<and> (\<not> Distance (X c) (Y c) (X l) (Y l) \<le>s Radius c \<longrightarrow>
            altitude (float64_of (Distance (X c) (Y c) (X l) (Y l)))
              (float64_of (Distance (X c) (Y c) (X2 l) (Y2 l)))
              (float64_of (GetLength l)) = NaN)"
proof -
  have len: "float64_of (GetLength l) = Finite False 0"
    using assms by (simp add: GetLength_degenerate float64_of_def)
  have alt: "altitude (float64_of (Distance (X c) (Y c) (X l) (Y l)))
              (float64_of (Distance (X c) (Y c) (X2 l) (Y2 l)))
              (float64_of (GetLength l)) = NaN"
    unfolding len assms by (rule altitude_degenerate)
  have "isCollidingWithLine c l = (Distance (X c) (Y c) (X l) (Y l) \<le>s Radius c)"
    unfolding isCollidingWithLine_def Let_def alt
    by (simp add: assms f_le_float64_of)
  then show ?thesis using len alt by simp
qed

text \<open>
  The point \<open>(3,4)\<close> is 5 away from the origin: inside the circle of radius 5, outside the
  circle of radius 4.
\<close>

theorem isCollidingWithLine_degenerate_witness:
  "isCollidingWithLine \<lparr>X = 0, Y = 0, Radius = 5\<rparr> \<lparr>X = 3, Y = 4, X2 = 3, Y2 = 4\<rparr> = True
   \<and> isCollidingWithLine \<lparr>X = 0, Y = 0, Radius = 4\<rparr> \<lparr>X = 3, Y = 4, X2 = 3, Y2 = 4\<rparr> = False"
proof -
  have d: "Distance 0 0 3 4 = 5"
    by (rule Distance_eqI [where k = 5 and n = 25, simplified]) (simp_all add: sq_dist_def)
  show ?thesis
    using isCollidingWithLine_degenerate
            [of "\<lparr>X = 3, Y = 4, X2 = 3, Y2 = 4\<rparr>" "\<lparr>X = 0, Y = 0, Radius = 5\<rparr>"]
          isCollidingWithLine_degenerate
            [of "\<lparr>X = 3, Y = 4, X2 = 3, Y2 = 4\<rparr>" "\<lparr>X = 0, Y = 0, Radius = 4\<rparr>"]
    by (simp add: d word_sle_eq)
qed

text \<open>
  C4 says that a fallback branch decides the degenerate line and that no division by zero
  and no NaN is involved. For the circle at the origin with radius 4 and the line from
  \<open>(3,4)\<close> to \<open>(3,4)\<close> the end point check fails, the divisor \<open>BA\<close> is 0, the altitude is NaN,
  and the answer is the value of a comparison with NaN.
\<close>

theorem isCollidingWithLine_degenerate_counterexample:
  "\<not> f_le (float64_of (Distance 0 0 3 4)) (float64_of 4)
   \<and> float64_of (GetLength \<lparr>X = 3, Y = 4, X2 = 3, Y2 = 4\<rparr>) = Finite False 0
   \<and> altitude (float64_of (Distance 0 0 3 4)) (float64_of (Distance 0 0 3 4))
        (float64_of (GetLength \<lparr>X = 3, Y = 4, X2 = 3, Y2 = 4\<rparr>)) = NaN
   \<and> f_le NaN (float64_of 4) = False
   \<and> isCollidingWithLine \<lparr>X = 0, Y = 0, Radius = 4\<rparr> \<lparr>X = 3, Y = 4, X2 = 3, Y2 = 4\<rparr> = False"
proof -
  have d: "Distance 0 0 3 4 = 5"
    by (rule Distance_eqI [where k = 5 and n = 25, simplified]) (simp_all add: sq_dist_def)
  have len: "GetLength \<lparr>X = 3, Y = 4, X2 = 3, Y2 = 4\<rparr> = 0"
    by (simp add: GetLength_degenerate)
  have 1: "\<not> f_le (float64_of (Distance 0 0 3 4)) (float64_of 4)"
    by (simp add: d f_le_float64_of word_sle_eq)
  have 2: "float64_of (GetLength \<lparr>X = 3, Y = 4, X2 = 3, Y2 = 4\<rparr>) = Finite False 0"
    by (simp add: len float64_of_def)
  have 3: "altitude (float64_of (Distance 0 0 3 4)) (float64_of (Distance 0 0 3 4))
        (float64_of (GetLength \<lparr>X = 3, Y = 4, X2 = 3, Y2 = 4\<rparr>)) = NaN"
    unfolding 2 by (rule altitude_degenerate)
  have 4: "isCollidingWithLine \<lparr>X = 0, Y = 0, Radius = 4\<rparr> \<lparr>X = 3, Y = 4, X2 = 3, Y2 = 4\<rparr> = False"
    unfolding isCollidingWithLine_def Let_def using 1 3 by simp
  show ?thesis using 1 2 3 4 by simp
qed

lemma pow2_powi: "pow2 k = 2 powi k"
  by (simp add: pow2_def power_int_def power_one_over inverse_eq_divide)

lemma pow2_pos: "0 < pow2 k"
  by (simp add: pow2_powi)

lemma pow2_add: "pow2 (a + b) = pow2 a * pow2 b"
  by (simp add: pow2_powi power_int_add)

lemma pow2_nat: "0 \<le> k \<Longrightarrow> pow2 k = of_int (2 ^ nat k)"
  by (simp add: pow2_def)

lemma pow2_less_cancel: "pow2 a < pow2 b \<Longrightarrow> a < b"
  unfolding pow2_powi
  by (metis linorder_not_le one_less_numeral_iff power_int_increasing semiring_norm(76) less_imp_le leD)

lemma ilog2_le:
  assumes "0 < q"
  shows "pow2 (ilog2 q) \<le> q"
proof -
  obtain n d where nd: "quotient_of q = (n, d)" by (cases "quotient_of q")
  then have d: "0 < d" and q: "q = of_int n / of_int d"
    using quotient_of_denom_pos quotient_of_div by blast+
  have n: "0 < n" using assms d unfolding q by (simp add: zero_less_divide_iff)
  define k where "k = bit_length n - bit_length d"
  show ?thesis
  proof (cases "pow2 k \<le> q")
    case True
    then show ?thesis by (simp add: ilog2_def nd k_def)
  next
    case False
    from bit_length_bounds [OF n] have bn: "1 \<le> bit_length n" and lo: "2 ^ nat (bit_length n - 1) \<le> n"
      by simp_all
    from bit_length_bounds [OF d] have bd: "1 \<le> bit_length d" and hi: "d < 2 ^ nat (bit_length d)"
      by simp_all
    have "pow2 (bit_length n - 1) \<le> of_int n"
      unfolding pow2_nat [of "bit_length n - 1"] using bn lo by (simp add: pow2_nat of_int_le_iff [symmetric] del: of_int_le_iff)
    moreover have "(of_int d :: rat) \<le> pow2 (bit_length d)"
      using bd hi by (simp add: pow2_nat of_int_le_iff [symmetric] less_imp_le del: of_int_le_iff)
    moreover have "pow2 (bit_length n - 1) = pow2 (k - 1) * pow2 (bit_length d)"
      unfolding pow2_add [symmetric] by (simp add: k_def)
    ultimately have "pow2 (k - 1) * of_int d \<le> of_int n"
      using mult_left_mono [of "of_int d" "pow2 (bit_length d)" "pow2 (k - 1)"]
        less_imp_le [OF pow2_pos [of "k - 1"]] by linarith
    then have "pow2 (k - 1) \<le> q"
      unfolding q using d by (simp add: pos_le_divide_eq)
    then show ?thesis using False by (simp add: ilog2_def nd k_def)
  qed
qed

lemma round64_dyadic:
  assumes "0 \<le> k" and "k < 2 ^ 53" and "j \<le> 1074"
  shows "round64 s (of_int k / 2 ^ j) = Finite s (of_int k / 2 ^ j)"
proof (cases "k = 0")
  case True
  then show ?thesis by (simp add: round64_def)
next
  case False
  with assms have pos: "0 < k" by simp
  define m :: rat where "m = of_int k / 2 ^ j"
  have m: "m = of_int k * pow2 (- int j)"
    by (simp add: m_def pow2_powi power_int_minus_divide)
  have mpos: "0 < m" using pos by (simp add: m_def)
  define e where "e = max (ilog2 m) (- 1022)"
  have "pow2 (ilog2 m) \<le> m" using mpos by (rule ilog2_le)
  also have "m < of_int (2 ^ 53) * pow2 (- int j)"
    unfolding m using assms(2) pow2_pos [of "- int j"]
    by (simp only: mult_less_cancel_right_pos of_int_less_iff)
  also have "\<dots> = pow2 (53 - int j)"
    using pow2_add [of 53 "- int j"] by (simp add: pow2_nat)
  finally have "ilog2 m < 53 - int j" by (rule pow2_less_cancel)
  then have le: "e \<le> 52 - int j" using assms(3) by (simp add: e_def)
  define i where "i = nat (52 - int j - e)"
  have i: "int i = 52 - int j - e" using le by (simp add: i_def)
  have "pow2 (- int j) = pow2 (int i) * pow2 (e - 52)"
    unfolding pow2_add [symmetric] i by simp
  then have split: "m = of_int (k * 2 ^ i) * pow2 (e - 52)"
    unfolding m by (simp add: pow2_nat)
  have q: "m / pow2 (e - 52) = of_int (k * 2 ^ i)"
    unfolding split using pow2_pos [of "e - 52"] by simp
  have r: "of_int (nearest_even (m / pow2 (e - 52))) * pow2 (e - 52) = m"
    unfolding q nearest_even_of_int by (rule split [symmetric])
  have "m \<le> of_int k"
    using pos by (simp add: m_def field_simps mult_le_cancel_left1 self_le_ge2_pow)
  also have "(of_int k :: rat) < of_int (2 ^ 1024)"
    using assms(2) by (simp only: of_int_less_iff) simp
  finally have big: "\<not> pow2 1024 \<le> m" by (simp add: pow2_def)
  have nz: "m \<noteq> 0" using mpos by simp
  show ?thesis
    unfolding m_def [symmetric] round64_def Let_def e_def [symmetric] r using nz big by simp
qed

lemma round64_exact:
  assumes "q = of_int k / 2 ^ j" and "0 \<le> k" and "k < 2 ^ 53" and "j \<le> 1074"
  shows "round64 s q = Finite s q"
  unfolding assms(1) using assms(2-4) by (rule round64_dyadic)

text \<open>
  The altitude for the sides 9, 32 and 42, which are not the sides of a triangle: the
  semi-perimeter is \<open>41.5\<close>, less than the base, the radicand \<open>41.5 * 32.5 * 9.5 * (-0.5)\<close> of
  Heron's formula is negative, and its square root is NaN. Every number on the way is a
  number of the format, so nothing is rounded off.
\<close>

lemma altitude_no_triangle:
  "altitude (Finite False 9) (Finite False 32) (Finite False 42) = NaN"
proof -
  have r: "round64 False 41 = Finite False 41" "round64 False 83 = Finite False 83"
    "round64 False (83 / 2) = Finite False (83 / 2)"
    "round64 False (65 / 2) = Finite False (65 / 2)"
    "round64 False (19 / 2) = Finite False (19 / 2)"
    "round64 True (1 / 2) = Finite True (1 / 2)"
    "round64 False (5395 / 4) = Finite False (5395 / 4)"
    "round64 False (102505 / 8) = Finite False (102505 / 8)"
    "round64 True (102505 / 16) = Finite True (102505 / 16)"
    by (rule round64_exact [where k = 41 and j = 0], simp_all)
       (rule round64_exact [where k = 83 and j = 0], simp_all,
        rule round64_exact [where k = 83 and j = 1], simp_all,
        rule round64_exact [where k = 65 and j = 1], simp_all,
        rule round64_exact [where k = 19 and j = 1], simp_all,
        rule round64_exact [where k = 1 and j = 1], simp_all,
        rule round64_exact [where k = 5395 and j = 2], simp_all,
        rule round64_exact [where k = 102505 and j = 3], simp_all,
        rule round64_exact [where k = 102505 and j = 4], simp_all)
  show ?thesis
    by (simp add: altitude_def semi_perimeter_def two_def f_sub_def Let_def r)
qed

text \<open>
  Claim C1 at a circle whose centre lies on a segment of positive length. The centre
  \<open>(7,7)\<close> is a point of the segment from \<open>(0,0)\<close> to \<open>(30,30)\<close>: the least distance from the
  segment to the centre is 0 and the reference test reports a collision with the circle of
  radius 5. The method works with the integer parts 9, 32 and 42 of the three distances.
  Both end points are outside the circle, the altitude of the "triangle" with these sides
  is NaN, the comparison \<^verbatim>\<open>h <= float64(c.Radius)\<close> is false, and the method, and with it
  \<^verbatim>\<open>Circle.IsColliding\<close>, returns false.
\<close>
theorem isCollidingWithLine_centre_on_segment:
  "segment_distance \<lparr>X = 0, Y = 0, X2 = 30, Y2 = 30\<rparr> \<lparr>X = 7, Y = 7, Radius = 5\<rparr> = 0
   \<and> reference_IsColliding \<lparr>X = 7, Y = 7, Radius = 5\<rparr> \<lparr>X = 0, Y = 0, X2 = 30, Y2 = 30\<rparr> = True
   \<and> altitude (float64_of (Distance 7 7 0 0)) (float64_of (Distance 7 7 30 30))
        (float64_of (GetLength \<lparr>X = 0, Y = 0, X2 = 30, Y2 = 30\<rparr>)) = NaN
   \<and> isCollidingWithLine \<lparr>X = 7, Y = 7, Radius = 5\<rparr> \<lparr>X = 0, Y = 0, X2 = 30, Y2 = 30\<rparr> = False
   \<and> Circle_IsColliding (\<lambda>_ _. None)
        (empty_heap(0 := CircleShape \<lparr>X = 7, Y = 7, Radius = 5\<rparr>,
                    1 := LineShape \<lparr>X = 0, Y = 0, X2 = 30, Y2 = 30\<rparr>)) (Ptr 0) (Ptr 1) =
      Some (Inr False, [])"
proof -
  have ac: "Distance 7 7 0 0 = 9"
    by (rule Distance_eqI [where k = 9 and n = 98, simplified]) (simp_all add: sq_dist_def)
  have cb: "Distance 7 7 30 30 = 32"
    by (rule Distance_eqI [where k = 32 and n = 1058, simplified]) (simp_all add: sq_dist_def)
  have ba: "GetLength \<lparr>X = 0, Y = 0, X2 = 30, Y2 = 30\<rparr> = 42"
    unfolding GetLength_def
    by (simp, rule Distance_eqI [where k = 42 and n = 1800, simplified]) (simp_all add: sq_dist_def)
  have f: "float64_of 9 = Finite False 9" "float64_of 32 = Finite False 32"
    "float64_of 42 = Finite False 42" "float64_of 5 = Finite False 5"
    by (simp_all add: float64_of_def)
  have 1: "segment_distance \<lparr>X = 0, Y = 0, X2 = 30, Y2 = 30\<rparr> \<lparr>X = 7, Y = 7, Radius = 5\<rparr> = 0"
    by (simp add: segment_distance_def point_segment_distance_def)
  have 2: "reference_IsColliding \<lparr>X = 7, Y = 7, Radius = 5\<rparr> \<lparr>X = 0, Y = 0, X2 = 30, Y2 = 30\<rparr> = True"
    by (simp add: reference_IsColliding_def 1)
  have 3: "altitude (float64_of (Distance 7 7 0 0)) (float64_of (Distance 7 7 30 30))
        (float64_of (GetLength \<lparr>X = 0, Y = 0, X2 = 30, Y2 = 30\<rparr>)) = NaN"
    unfolding ac cb ba f by (rule altitude_no_triangle)
  have 4: "isCollidingWithLine \<lparr>X = 7, Y = 7, Radius = 5\<rparr> \<lparr>X = 0, Y = 0, X2 = 30, Y2 = 30\<rparr> = False"
    unfolding isCollidingWithLine_def Let_def
    using 3 by (simp add: ac cb f)
  have 5: "Circle_IsColliding (\<lambda>_ _. None)
        (empty_heap(0 := CircleShape \<lparr>X = 7, Y = 7, Radius = 5\<rparr>,
                    1 := LineShape \<lparr>X = 0, Y = 0, X2 = 30, Y2 = 30\<rparr>)) (Ptr 0) (Ptr 1) =
      Some (Inr False, [])"
    using 4 by (simp add: Circle_IsColliding_def)
  show ?thesis using 1 2 3 4 5 by simp
qed

section \<open>The unrecognised shape\<close>

text \<open>
  Claim C7. For every circle and every shape whose type is none of Circle, Rectangle, Line
  and Space (an object of a further implementation of the interface, a nil pointer of such
  a type, or the nil interface), \<^verbatim>\<open>Circle.IsColliding\<close> prints the warning once and returns
  false; it makes no further call, reads no field, and so always returns and never panics,
  whatever the receiver.
\<close>
theorem Circle_IsColliding_Other:
  assumes "type_of h other \<notin> {Some CircleKind, Some RectangleKind, Some LineKind, Some SpaceKind}"
  shows "Circle_IsColliding call h c other = Some (Inr False, [NotAValidShape other c])"
proof (cases "type_of h other")
  case None
  then show ?thesis by (simp add: Circle_IsColliding_def)
next
  case (Some k)
  with assms show ?thesis by (cases k) (simp_all add: Circle_IsColliding_def)
qed

theorem Circle_IsColliding_Other_witness:
  "Circle_IsColliding (\<lambda>_ _. None) (empty_heap(0 := CircleShape \<lparr>X = 0, Y = 0, Radius = 5\<rparr>))
     (Ptr 0) (Ptr 1) = Some (Inr False, [NotAValidShape (Ptr 1) (Ptr 0)])
   \<and> Circle_IsColliding (\<lambda>_ _. None) (empty_heap(0 := CircleShape \<lparr>X = 0, Y = 0, Radius = 5\<rparr>))
     (Ptr 0) NilShape = Some (Inr False, [NotAValidShape NilShape (Ptr 0)])"
  using Circle_IsColliding_Other
          [of "empty_heap(0 := CircleShape \<lparr>X = 0, Y = 0, Radius = 5\<rparr>)" "Ptr 1" "\<lambda>_ _. None" "Ptr 0"]
        Circle_IsColliding_Other
          [of "empty_heap(0 := CircleShape \<lparr>X = 0, Y = 0, Radius = 5\<rparr>)" NilShape "\<lambda>_ _. None" "Ptr 0"]
  by (simp add: empty_heap_def)

section \<open>The swept test of a Circle\<close>

lemma type_of_update_same_kind:
  assumes "kind_of (h p) = kind_of s"
  shows "type_of (h(p := s)) r = type_of h r"
  using assms by (cases r) simp_all

lemma Circle_IsColliding_returns:
  assumes "type_of h other \<noteq> Some SpaceKind"
  shows "\<exists>v. Circle_IsColliding call h c other = Some v"
proof (cases "type_of h other")
  case None
  then show ?thesis by (simp add: Circle_IsColliding_def)
next
  case (Some k)
  with assms show ?thesis
    by (cases k) (simp_all add: Circle_IsColliding_def Let_def split: option.split)
qed

lemma Circle_WouldBeColliding_eq:
  assumes "h p = CircleShape c"
  shows "Circle_WouldBeColliding call h (Ptr p) other dx dy =
           (case Circle_IsColliding
                   (call (h(p := CircleShape (c\<lparr>X := X c + dx, Y := Y c + dy\<rparr>))))
                   (h(p := CircleShape (c\<lparr>X := X c + dx, Y := Y c + dy\<rparr>))) (Ptr p) other of
              None \<Rightarrow> None
            | Some (Inl e, ws) \<Rightarrow>
                Some ((Inl e, ws), h(p := CircleShape (c\<lparr>X := X c + dx, Y := Y c + dy\<rparr>)))
            | Some (Inr b, ws) \<Rightarrow> Some ((Inr b, ws), h))"
proof -
  have "h(p := CircleShape c) = h"
    using assms by (simp add: fun_upd_idem)
  then show ?thesis
    unfolding Circle_WouldBeColliding_def Let_def
    by (simp add: assms split: option.split sum.split prod.split)
qed

text \<open>
  Claim C5, as the code has it. For every circle, every other shape and every delta,
  \<^verbatim>\<open>Circle.WouldBeColliding\<close> ends as \<^verbatim>\<open>IsColliding\<close> ends for the circle displaced by the delta
  (with wrap-around). When it returns, the heap it leaves is the heap it found: the
  position of the circle, and everything else, is as before the call, whatever the boolean.
  When \<^verbatim>\<open>c.IsColliding(other)\<close> panics, the method ends there and the circle stays displaced.
  The call ends, one way or the other, for every other shape that is not a Space.
\<close>
theorem Circle_WouldBeColliding_restores_on_return:
  assumes "h p = CircleShape c"
  shows "let h2 = h(p := CircleShape (c\<lparr>X := X c + dx, Y := Y c + dy\<rparr>)) in
           Circle_WouldBeColliding call h (Ptr p) other dx dy =
             (case Circle_IsColliding (call h2) h2 (Ptr p) other of
                None \<Rightarrow> None
              | Some (Inl e, ws) \<Rightarrow> Some ((Inl e, ws), h2)
              | Some (Inr b, ws) \<Rightarrow> Some ((Inr b, ws), h))
         \<and> (\<forall>b ws h'. Circle_WouldBeColliding call h (Ptr p) other dx dy = Some ((Inr b, ws), h')
               \<longrightarrow> h' = h \<and> circle_at h' (Ptr p) = Some c)
         \<and> (\<forall>e ws h'. Circle_WouldBeColliding call h (Ptr p) other dx dy = Some ((Inl e, ws), h')
               \<longrightarrow> h' = h2)
         \<and> (type_of h other \<noteq> Some SpaceKind \<longrightarrow>
               (\<exists>v h'. Circle_WouldBeColliding call h (Ptr p) other dx dy = Some (v, h')))"
proof -
  define h2 where "h2 = h(p := CircleShape (c\<lparr>X := X c + dx, Y := Y c + dy\<rparr>))"
  note eq = Circle_WouldBeColliding_eq [of h p c call other dx dy, OF assms, folded h2_def]
  have 1: "\<forall>b ws h'. Circle_WouldBeColliding call h (Ptr p) other dx dy = Some ((Inr b, ws), h')
               \<longrightarrow> h' = h \<and> circle_at h' (Ptr p) = Some c"
    unfolding eq using assms by (auto split: option.splits sum.splits prod.splits)
  have 2: "\<forall>e ws h'. Circle_WouldBeColliding call h (Ptr p) other dx dy = Some ((Inl e, ws), h')
               \<longrightarrow> h' = h2"
    unfolding eq by (auto split: option.splits sum.splits prod.splits)
  have 3: "\<exists>v h'. Circle_WouldBeColliding call h (Ptr p) other dx dy = Some (v, h')"
    if "type_of h other \<noteq> Some SpaceKind"
  proof -
    have "type_of h2 other = type_of h other"
      unfolding h2_def by (rule type_of_update_same_kind) (simp add: assms)
    with that have "type_of h2 other \<noteq> Some SpaceKind" by simp
    from Circle_IsColliding_returns [OF this, of "call h2" "Ptr p"]
    obtain v where "Circle_IsColliding (call h2) h2 (Ptr p) other = Some v" by blast
    then show ?thesis
      unfolding eq by (cases v) (auto split: sum.splits)
  qed
  show ?thesis
    unfolding Let_def h2_def [symmetric] using eq 1 2 3 by blast
qed

text \<open>
  A swept test that reports a collision: the circle at the origin, moved by \<open>(10,0)\<close>,
  touches the circle at \<open>(20,0)\<close>; the heap is unchanged.
\<close>

theorem Circle_WouldBeColliding_restores_on_return_witness:
  "Circle_WouldBeColliding (\<lambda>_ _ _. None)
     (empty_heap(0 := CircleShape \<lparr>X = 0, Y = 0, Radius = 5\<rparr>,
                 1 := CircleShape \<lparr>X = 20, Y = 0, Radius = 5\<rparr>))
     (Ptr 0) (Ptr 1) 10 0 =
   Some ((Inr True, []),
     empty_heap(0 := CircleShape \<lparr>X = 0, Y = 0, Radius = 5\<rparr>,
                1 := CircleShape \<lparr>X = 20, Y = 0, Radius = 5\<rparr>))"
proof -
  have d: "Distance 10 0 20 0 = 10"
    by (rule Distance_eqI [where k = 10 and n = 100, simplified]) (simp_all add: sq_dist_def)
  show ?thesis
    using Circle_WouldBeColliding_restores_on_return
      [where h = "empty_heap(0 := CircleShape \<lparr>X = 0, Y = 0, Radius = 5\<rparr>,
                      1 := CircleShape \<lparr>X = 20, Y = 0, Radius = 5\<rparr>)"
         and p = 0 and c = "\<lparr>X = 0, Y = 0, Radius = 5\<rparr>" and dx = 10 and dy = 0
         and call = "\<lambda>_ _ _. None" and other = "Ptr 1"]
    by (simp add: Circle_IsColliding_def d Let_def)
qed

text \<open>
  C5 says that the position is as before the call for every other shape. For a nil pointer
  of type \<^verbatim>\<open>*Circle\<close> the call \<^verbatim>\<open>c.IsColliding(other)\<close> panics when it reads \<^verbatim>\<open>b.X\<close>; the two
  assignments that would restore the position are not reached, and the circle, at the
  origin before the call, is at \<open>(10,0)\<close> after it.
\<close>

theorem Circle_WouldBeColliding_counterexample:
  "Circle_WouldBeColliding (\<lambda>_ _ _. None)
     (empty_heap(0 := CircleShape \<lparr>X = 0, Y = 0, Radius = 5\<rparr>)) (Ptr 0) (Nil CircleKind) 10 0 =
   Some ((Inl NilDereference, []), empty_heap(0 := CircleShape \<lparr>X = 10, Y = 0, Radius = 5\<rparr>))"
  by (simp add: Circle_WouldBeColliding_def Circle_IsColliding_def Let_def)

section \<open>Adding to a Space\<close>

text \<open>
  Claim C8, as the code has it. \<^verbatim>\<open>sp.Add\<close> panics exactly when one of its arguments is \<open>sp\<close>
  itself. The arguments before the first such argument have been appended by then, in
  their order, and \<open>sp\<close> is not appended. Without such an argument all arguments are
  appended, whatever they hold.
\<close>
theorem Space_Add_panics_on_itself_only:
  assumes "h a = SpaceShape ms"
  shows "Space_Add h (Ptr a) shapes =
           (if Ptr a \<in> set shapes
            then (Some (CannotAddItself (Ptr a)),
                  h(a := SpaceShape (ms @ takeWhile (\<lambda>s. s \<noteq> Ptr a) shapes)))
            else (None, h(a := SpaceShape (ms @ shapes))))"
  using assms
proof (induction shapes arbitrary: h ms)
  case Nil
  then show ?case by (simp add: fun_upd_idem)
next
  case (Cons shape shapes)
  show ?case
  proof (cases "shape = Ptr a")
    case True
    then show ?thesis using Cons.prems by (simp add: fun_upd_idem)
  next
    case False
    let ?h = "h(a := SpaceShape (ms @ [shape]))"
    have "?h a = SpaceShape (ms @ [shape])" by simp
    note ih = Cons.IH [of ?h "ms @ [shape]", OF this]
    have step: "Space_Add h (Ptr a) (shape # shapes) = Space_Add ?h (Ptr a) shapes"
      using False Cons.prems by simp
    have upd: "?h(a := v) = h(a := v)" for v by simp
    show ?thesis
      unfolding step ih upd using False by (simp add: fun_upd_def)
  qed
qed

theorem Space_Add_panics_on_itself_only_witness:
  "Space_Add (empty_heap(0 := SpaceShape [Ptr 5])) (Ptr 0) [Ptr 1, Ptr 0, Ptr 2] =
     (Some (CannotAddItself (Ptr 0)), empty_heap(0 := SpaceShape [Ptr 5, Ptr 1]))
   \<and> Space_Add (empty_heap(0 := SpaceShape [Ptr 5])) (Ptr 0) [Ptr 1, Ptr 2] =
     (None, empty_heap(0 := SpaceShape [Ptr 5, Ptr 1, Ptr 2]))"
  using Space_Add_panics_on_itself_only
          [of "empty_heap(0 := SpaceShape [Ptr 5])" 0 "[Ptr 5]" "[Ptr 1, Ptr 0, Ptr 2]"]
        Space_Add_panics_on_itself_only
          [of "empty_heap(0 := SpaceShape [Ptr 5])" 0 "[Ptr 5]" "[Ptr 1, Ptr 2]"]
  by simp

text \<open>
  C8 says that adding a Space that contains \<open>sp\<close> through other Spaces is a fatal error too.
  The Space 1 holds the Space 0; adding 1 to 0 does not panic and appends it, after which
  each of the two holds the other.
\<close>

theorem Space_Add_counterexample:
  "(empty_heap(0 := SpaceShape [], 1 := SpaceShape [Ptr 0])) 1 = SpaceShape [Ptr 0]
   \<and> Space_Add (empty_heap(0 := SpaceShape [], 1 := SpaceShape [Ptr 0])) (Ptr 0) [Ptr 1] =
       (None, empty_heap(0 := SpaceShape [Ptr 1], 1 := SpaceShape [Ptr 0]))"
  by (simp add: fun_upd_twist)

section \<open>The swept test of a Space\<close>

lemma Space_WouldBeColliding_after_other:
  "Space_WouldBeColliding_range wbc h (pre @ other # post) other =
   Space_WouldBeColliding_range wbc h (pre @ [other]) other"
  by (induction pre arbitrary: h) (simp_all split: option.split prod.split sum.split)

lemma Space_WouldBeColliding_none_before:
  assumes "\<forall>m\<in>set pre. \<exists>ws. wbc h m = Some ((Inr False, ws), h)"
  shows "\<exists>ws. Space_WouldBeColliding_range wbc h (pre @ other # post) other =
           Some ((Inr False, ws), h)"
  using assms
proof (induction pre)
  case Nil
  then show ?case by simp
next
  case (Cons m pre)
  from Cons.prems obtain ws where m: "wbc h m = Some ((Inr False, ws), h)" by auto
  from Cons.prems have "\<forall>m\<in>set pre. \<exists>ws. wbc h m = Some ((Inr False, ws), h)" by simp
  from Cons.IH [OF this] obtain ws'
    where "Space_WouldBeColliding_range wbc h (pre @ other # post) other =
             Some ((Inr False, ws'), h)"
    by blast
  with m show ?case by simp
qed

text \<open>
  Claim C10. Let the Space \<open>sp\<close> hold \<open>other\<close>, with the members \<open>pre\<close> before it and \<open>post\<close>
  after it. If \<^verbatim>\<open>WouldBeColliding\<close> returns false for every member before \<open>other\<close> (leaving
  the heap as it was), then \<^verbatim>\<open>sp.WouldBeColliding(other, dx, dy)\<close> returns false. The members
  after \<open>other\<close> are never tested: the call is the loop on the Space cut off after \<open>other\<close>.
  With no member before \<open>other\<close> the result is false without any test.
\<close>
theorem Space_WouldBeColliding_up_to_other:
  assumes "h a = SpaceShape (pre @ other # post)"
    and "\<forall>m\<in>set pre. \<exists>ws. WouldBeColliding ext n h m other dx dy = Some ((Inr False, ws), h)"
  shows "(\<exists>ws. WouldBeColliding ext (Suc n) h (Ptr a) other dx dy = Some ((Inr False, ws), h))
       \<and> WouldBeColliding ext (Suc n) h (Ptr a) other dx dy =
           Space_WouldBeColliding_range (\<lambda>h' shape. WouldBeColliding ext n h' shape other dx dy)
             h (pre @ [other]) other"
proof -
  let ?wbc = "\<lambda>h' shape. WouldBeColliding ext n h' shape other dx dy"
  have eq: "WouldBeColliding ext (Suc n) h (Ptr a) other dx dy =
      Space_WouldBeColliding_range ?wbc h (pre @ other # post) other"
    using assms(1) by (simp add: Space_WouldBeColliding_def)
  have "\<exists>ws. Space_WouldBeColliding_range ?wbc h (pre @ other # post) other =
          Some ((Inr False, ws), h)"
    using assms(2) by (intro Space_WouldBeColliding_none_before) simp
  moreover have "Space_WouldBeColliding_range ?wbc h (pre @ other # post) other =
      Space_WouldBeColliding_range ?wbc h (pre @ [other]) other"
    by (rule Space_WouldBeColliding_after_other)
  ultimately show ?thesis unfolding eq by simp
qed

text \<open>
  The member after \<open>other\<close> occupies the place of \<open>other\<close> and would collide with it; it is not
  tested, and the answer is false. When \<open>other\<close> is the first member nothing is tested at
  all.
\<close>

theorem Space_WouldBeColliding_up_to_other_witness:
  "WouldBeColliding no_foreign 2
     (empty_heap(0 := CircleShape \<lparr>X = 0, Y = 0, Radius = 1\<rparr>,
                 1 := CircleShape \<lparr>X = 100, Y = 0, Radius = 1\<rparr>,
                 2 := CircleShape \<lparr>X = 100, Y = 0, Radius = 1\<rparr>,
                 3 := SpaceShape [Ptr 0, Ptr 1, Ptr 2])) (Ptr 3) (Ptr 1) 5 0 =
   Some ((Inr False, []),
     empty_heap(0 := CircleShape \<lparr>X = 0, Y = 0, Radius = 1\<rparr>,
                1 := CircleShape \<lparr>X = 100, Y = 0, Radius = 1\<rparr>,
                2 := CircleShape \<lparr>X = 100, Y = 0, Radius = 1\<rparr>,
                3 := SpaceShape [Ptr 0, Ptr 1, Ptr 2]))
   \<and> WouldBeColliding no_foreign 2
     (empty_heap(1 := CircleShape \<lparr>X = 100, Y = 0, Radius = 1\<rparr>,
                 2 := CircleShape \<lparr>X = 100, Y = 0, Radius = 1\<rparr>,
                 3 := SpaceShape [Ptr 1, Ptr 2])) (Ptr 3) (Ptr 1) 5 0 =
   Some ((Inr False, []),
     empty_heap(1 := CircleShape \<lparr>X = 100, Y = 0, Radius = 1\<rparr>,
                2 := CircleShape \<lparr>X = 100, Y = 0, Radius = 1\<rparr>,
                3 := SpaceShape [Ptr 1, Ptr 2]))"
proof -
  let ?h = "empty_heap(0 := CircleShape \<lparr>X = 0, Y = 0, Radius = 1\<rparr>,
                 1 := CircleShape \<lparr>X = 100, Y = 0, Radius = 1\<rparr>,
                 2 := CircleShape \<lparr>X = 100, Y = 0, Radius = 1\<rparr>,
                 3 := SpaceShape [Ptr 0, Ptr 1, Ptr 2])"
  let ?g = "empty_heap(1 := CircleShape \<lparr>X = 100, Y = 0, Radius = 1\<rparr>,
                 2 := CircleShape \<lparr>X = 100, Y = 0, Radius = 1\<rparr>,
                 3 := SpaceShape [Ptr 1, Ptr 2])"
  have d: "Distance 5 0 100 0 = 95"
    by (rule Distance_eqI [where k = 95 and n = 9025, simplified]) (simp_all add: sq_dist_def)
  have c0: "?h 0 = CircleShape \<lparr>X = 0, Y = 0, Radius = 1\<rparr>" by simp
  have "WouldBeColliding no_foreign (Suc 0) ?h (Ptr 0) (Ptr 1) 5 0 =
      Circle_WouldBeColliding (IsColliding no_foreign 0) ?h (Ptr 0) (Ptr 1) 5 0"
    by simp
  also have "\<dots> = Some ((Inr False, []), ?h)"
    by (subst Circle_WouldBeColliding_eq [of ?h 0 "\<lparr>X = 0, Y = 0, Radius = 1\<rparr>", OF c0])
       (simp add: Circle_IsColliding_def d word_sle_eq)
  finally have m: "WouldBeColliding no_foreign 1 ?h (Ptr 0) (Ptr 1) 5 0 = Some ((Inr False, []), ?h)"
    by simp
  have sp: "?h 3 = SpaceShape ([Ptr 0] @ Ptr 1 # [Ptr 2])" by simp
  have "\<forall>m\<in>set [Ptr 0]. \<exists>ws. WouldBeColliding no_foreign 1 ?h m (Ptr 1) 5 0 =
          Some ((Inr False, ws), ?h)"
    using m by simp
  from Space_WouldBeColliding_up_to_other
         [of ?h 3 "[Ptr 0]" "Ptr 1" "[Ptr 2]" no_foreign 1 5 0, OF sp this] m
  have 1: "WouldBeColliding no_foreign 2 ?h (Ptr 3) (Ptr 1) 5 0 = Some ((Inr False, []), ?h)"
    by (simp add: numeral_2_eq_2)
  have sg: "?g 3 = SpaceShape ([] @ Ptr 1 # [Ptr 2])" by simp
  have "\<forall>m\<in>set []. \<exists>ws. WouldBeColliding no_foreign 1 ?g m (Ptr 1) 5 0 =
          Some ((Inr False, ws), ?g)"
    by simp
  from Space_WouldBeColliding_up_to_other
         [of ?g 3 "[]" "Ptr 1" "[Ptr 2]" no_foreign 1 5 0, OF sg this]
  have 2: "WouldBeColliding no_foreign 2 ?g (Ptr 3) (Ptr 1) 5 0 = Some ((Inr False, []), ?g)"
    by (simp add: numeral_2_eq_2)
  from 1 2 show ?thesis by (rule conjI)
qed

section \<open>Symmetry of IsColliding\<close>

lemma Distance_commute: "Distance x y x2 y2 = Distance x2 y2 x y"
proof -
  have "(sint x - sint x2) * (sint x - sint x2) + (sint y - sint y2) * (sint y - sint y2) =
        (sint x2 - sint x) * (sint x2 - sint x) + (sint y2 - sint y) * (sint y2 - sint y)"
    by (simp add: algebra_simps)
  then show ?thesis by (simp only: Distance_def Let_def)
qed

text \<open>
  Claim C6, as the code has it. For a circle \<open>a\<close> and a shape \<open>b\<close> that is a circle or a
  Space, \<^verbatim>\<open>a.IsColliding(b)\<close> and \<^verbatim>\<open>b.IsColliding(a)\<close> end alike at every depth of nested
  calls: both return the same boolean and print the same, or both end with the same panic,
  or neither has ended. Two circles always return, and print nothing.
\<close>
theorem IsColliding_symmetric:
  assumes "h p = CircleShape ca"
    and "h q = CircleShape cb \<or> h q = SpaceShape sp"
  shows "IsColliding ext n h (Ptr p) (Ptr q) = IsColliding ext n h (Ptr q) (Ptr p)
       \<and> (h q = CircleShape cb \<longrightarrow>
            IsColliding ext (Suc n) h (Ptr p) (Ptr q) =
              Some (Inr (Distance (X ca) (Y ca) (X cb) (Y cb) \<le>s Radius ca + Radius cb), []))"
proof -
  have 1: "IsColliding ext n h (Ptr p) (Ptr q) = IsColliding ext n h (Ptr q) (Ptr p)"
  proof (cases n)
    case 0
    then show ?thesis by simp
  next
    case (Suc n')
    from assms(2) show ?thesis
    proof
      assume b: "h q = CircleShape cb"
      show ?thesis
        unfolding Suc using assms(1) b
        by (simp add: Circle_IsColliding_def Distance_commute [of "X ca" "Y ca"] add.commute)
    next
      assume b: "h q = SpaceShape sp"
      show ?thesis
        unfolding Suc using assms(1) b by (simp add: Circle_IsColliding_def)
    qed
  qed
  have 2: "IsColliding ext (Suc n) h (Ptr p) (Ptr q) =
      Some (Inr (Distance (X ca) (Y ca) (X cb) (Y cb) \<le>s Radius ca + Radius cb), [])"
    if "h q = CircleShape cb"
    using assms(1) that by (simp add: Circle_IsColliding_def)
  show ?thesis using 1 2 by blast
qed

text \<open>
  The circle at the origin touches the circle that the Space holds. The circle against the
  Space and the Space against the circle both report the collision.
\<close>

theorem IsColliding_symmetric_witness:
  "IsColliding no_foreign 3
     (empty_heap(0 := CircleShape \<lparr>X = 0, Y = 0, Radius = 5\<rparr>,
                 1 := CircleShape \<lparr>X = 10, Y = 0, Radius = 5\<rparr>,
                 2 := SpaceShape [Ptr 1])) (Ptr 0) (Ptr 2) = Some (Inr True, [])
   \<and> IsColliding no_foreign 3
     (empty_heap(0 := CircleShape \<lparr>X = 0, Y = 0, Radius = 5\<rparr>,
                 1 := CircleShape \<lparr>X = 10, Y = 0, Radius = 5\<rparr>,
                 2 := SpaceShape [Ptr 1])) (Ptr 2) (Ptr 0) = Some (Inr True, [])"
proof -
  let ?h = "empty_heap(0 := CircleShape \<lparr>X = 0, Y = 0, Radius = 5\<rparr>,
                 1 := CircleShape \<lparr>X = 10, Y = 0, Radius = 5\<rparr>,
                 2 := SpaceShape [Ptr 1])"
  have d: "Distance 0 0 10 0 = 10"
    by (rule Distance_eqI [where k = 10 and n = 100, simplified]) (simp_all add: sq_dist_def)
  have 1: "IsColliding no_foreign 3 ?h (Ptr 2) (Ptr 0) = Some (Inr True, [])"
    by (simp add: eval_nat_numeral Circle_IsColliding_def Space_IsColliding_def d)
  have a: "?h 0 = CircleShape \<lparr>X = 0, Y = 0, Radius = 5\<rparr>" by simp
  have b: "?h 2 = CircleShape \<lparr>X = 0, Y = 0, Radius = 5\<rparr> \<or> ?h 2 = SpaceShape [Ptr 1]" by simp
  from IsColliding_symmetric [OF a b, of no_foreign 3]
  have "IsColliding no_foreign 3 ?h (Ptr 0) (Ptr 2) = IsColliding no_foreign 3 ?h (Ptr 2) (Ptr 0)"
    by blast
  with 1 show ?thesis by simp
qed

text \<open>
  Two Spaces need not agree. The Space 0 holds the Space 1, which holds two overlapping
  circles. \<^verbatim>\<open>Space.IsColliding\<close> skips the member that is the shape tested, so Space 0 against
  Space 1 tests nothing and returns false; Space 1 against Space 0 tests each of its circles
  against Space 0, hence against Space 1 and the other circle, and returns true.
\<close>

theorem IsColliding_symmetric_counterexample:
  "IsColliding no_foreign 5
     (empty_heap(0 := SpaceShape [Ptr 1], 1 := SpaceShape [Ptr 2, Ptr 3],
                 2 := CircleShape \<lparr>X = 0, Y = 0, Radius = 5\<rparr>,
                 3 := CircleShape \<lparr>X = 1, Y = 0, Radius = 5\<rparr>)) (Ptr 0) (Ptr 1) =
     Some (Inr False, [])
   \<and> IsColliding no_foreign 5
     (empty_heap(0 := SpaceShape [Ptr 1], 1 := SpaceShape [Ptr 2, Ptr 3],
                 2 := CircleShape \<lparr>X = 0, Y = 0, Radius = 5\<rparr>,
                 3 := CircleShape \<lparr>X = 1, Y = 0, Radius = 5\<rparr>)) (Ptr 1) (Ptr 0) =
     Some (Inr True, [])"
proof -
  have d: "Distance 0 0 1 0 = 1"
    by (rule Distance_eqI [where k = 1 and n = 1, simplified]) (simp_all add: sq_dist_def)
  have d': "Distance 1 0 0 0 = 1"
    by (rule Distance_eqI [where k = 1 and n = 1, simplified]) (simp_all add: sq_dist_def)
  show ?thesis
    by (simp add: eval_nat_numeral Circle_IsColliding_def Space_IsColliding_def d d' word_sle_eq)
qed

section \<open>Moving a Space\<close>

lemma position_moved:
  assumes "is_basic s"
  shows "position (moved dx dy s) = (fst (position s) + dx, snd (position s) + dy)"
  using assms
  by (cases s) (simp_all add: BasicShape_GetXY_def BasicShape_Move_def Line_Move_def)

lemma concat_options_map_Cons:
  "concat_options (map f (m # rest)) = Some ls \<longleftrightarrow>
     (\<exists>l ls'. f m = Some l \<and> concat_options (map f rest) = Some ls' \<and> ls = l @ ls')"
  by (cases "f m") (auto split: option.splits)

lemma concat_options_member:
  assumes "concat_options (map f sp) = Some ls" and "m \<in> set sp"
  shows "\<exists>l. f m = Some l \<and> set l \<subseteq> set ls"
  using assms
proof (induction sp arbitrary: ls)
  case Nil
  then show ?case by simp
next
  case (Cons k sp)
  from Cons.prems(1) obtain l ls' where
    k: "f k = Some l" and rest: "concat_options (map f sp) = Some ls'" and ls: "ls = l @ ls'"
    unfolding concat_options_map_Cons by blast
  show ?case
  proof (cases "m = k")
    case True
    then show ?thesis using k ls by auto
  next
    case False
    then have "m \<in> set sp" using Cons.prems(2) by simp
    from Cons.IH [OF rest this] show ?thesis using ls by auto
  qed
qed

lemma concat_options_elem:
  assumes "concat_options (map f sp) = Some ls" and "x \<in> set ls"
  shows "\<exists>m\<in>set sp. \<exists>l. f m = Some l \<and> x \<in> set l"
  using assms
proof (induction sp arbitrary: ls)
  case Nil
  then show ?case by simp
next
  case (Cons k sp)
  from Cons.prems(1) obtain l ls' where
    k: "f k = Some l" and rest: "concat_options (map f sp) = Some ls'" and ls: "ls = l @ ls'"
    unfolding concat_options_map_Cons by blast
  show ?case
  proof (cases "x \<in> set l")
    case True
    then show ?thesis using k by auto
  next
    case False
    then have "x \<in> set ls'" using Cons.prems(2) ls by simp
    from Cons.IH [OF rest this] show ?thesis by auto
  qed
qed

text \<open>What is reached through a Space is a pointer to an object.\<close>

lemma reached_cases:
  assumes "reached (Suc n) h a = Some ls"
  obtains p where "a = Ptr p" "is_basic (h p)" "ls = [p]"
  | p sp where "a = Ptr p" "h p = SpaceShape sp" "sp \<noteq> []"
      "concat_options (map (reached n h) sp) = Some ls"
proof (cases a)
  case (Ptr p)
  with assms show ?thesis
    by (cases "h p") (auto intro: that split: if_splits)
qed (use assms in simp_all)

text \<open>What is reached has a position of its own.\<close>

lemma reached_basic:
  "reached n h a = Some ls \<Longrightarrow> x \<in> set ls \<Longrightarrow> is_basic (h x)"
proof (induction n arbitrary: a ls)
  case 0
  then show ?case by simp
next
  case (Suc n)
  from Suc.prems(1) show ?case
  proof (cases rule: reached_cases)
    case (1 p)
    with Suc.prems(2) show ?thesis by simp
  next
    case (2 p sp)
    from concat_options_elem [OF 2(4) Suc.prems(2)]
    obtain m l where "reached n h m = Some l" "x \<in> set l" by blast
    then show ?thesis by (rule Suc.IH)
  qed
qed

text \<open>A move of objects with a position of their own changes nothing in what is reached.\<close>

lemma move_all_kind:
  "(case move_all dx dy ls h a of SpaceShape sp \<Rightarrow> f sp | OtherShape \<Rightarrow> g | _ \<Rightarrow> k) =
   (case h a of SpaceShape sp \<Rightarrow> f sp | OtherShape \<Rightarrow> g | _ \<Rightarrow> k)"
  by (cases "h a") (simp_all add: move_all_def)

lemma reached_move_all: "reached n (move_all dx dy ls h) a = reached n h a"
proof (induction n arbitrary: a)
  case 0
  then show ?case by simp
next
  case (Suc n)
  have eq: "reached n (move_all dx dy ls h) = reached n h"
    by (rule ext) (rule Suc.IH)
  show ?case
  proof (cases a)
    case (Ptr p)
    show ?thesis
      unfolding Ptr reached.simps eq by (rule move_all_kind)
  qed simp_all
qed

lemma reached_move_all_fun: "reached n (move_all dx dy ls h) = reached n h"
  by (rule ext) (rule reached_move_all)

lemma move_all_append:
  assumes "set l \<inter> set ls = {}"
  shows "move_all dx dy ls (move_all dx dy l h) = move_all dx dy (l @ ls) h"
  using assms by (auto simp: move_all_def fun_eq_iff)

lemma Space_Move_reached:
  assumes IH: "\<And>a ls h. reached n h a = Some ls \<Longrightarrow> distinct ls \<Longrightarrow>
                 Move ext n h a dx dy = Some (None, move_all dx dy ls h)"
    and "concat_options (map (reached n h) sp) = Some ls" and "distinct ls"
  shows "Space_Move_range (\<lambda>h' shape. Move ext n h' shape dx dy) h sp =
           Some (None, move_all dx dy ls h)"
  using assms(2,3)
proof (induction sp arbitrary: h ls)
  case Nil
  then show ?case by (simp add: move_all_def)
next
  case (Cons m sp)
  from Cons.prems(1) obtain l ls' where
    m: "reached n h m = Some l" and rest: "concat_options (map (reached n h) sp) = Some ls'"
    and ls: "ls = l @ ls'"
    unfolding concat_options_map_Cons by blast
  have dl: "distinct l" and dls: "distinct ls'" and disj: "set l \<inter> set ls' = {}"
    using Cons.prems(2) unfolding ls by simp_all
  let ?h1 = "move_all dx dy l h"
  have mv: "Move ext n h m dx dy = Some (None, ?h1)" using m dl by (rule IH)
  have "concat_options (map (reached n ?h1) sp) = Some ls'"
    using rest by (simp only: reached_move_all_fun)
  then have "Space_Move_range (\<lambda>h' shape. Move ext n h' shape dx dy) ?h1 sp =
      Some (None, move_all dx dy ls' ?h1)"
    using dls by (rule Cons.IH)
  then show ?case
    using mv unfolding ls by (simp add: move_all_append [OF disj])
qed

lemma Move_reached:
  "reached n h a = Some ls \<Longrightarrow> distinct ls \<Longrightarrow>
     Move ext n h a dx dy = Some (None, move_all dx dy ls h)"
proof (induction n arbitrary: a ls h)
  case 0
  then show ?case by simp
next
  case (Suc n)
  from Suc.prems(1) show ?case
  proof (cases rule: reached_cases)
    case (1 p)
    then show ?thesis
      by (cases "h p") (auto simp: move_all_def fun_eq_iff)
  next
    case (2 p sp)
    from Suc.IH 2(4) Suc.prems(2)
    have "Space_Move_range (\<lambda>h' shape. Move ext n h' shape dx dy) h sp =
        Some (None, move_all dx dy ls h)"
      by (rule Space_Move_reached)
    with 2 show ?thesis by (simp add: Space_Move_def)
  qed
qed

text \<open>The position of a shape is the position of what its \<^verbatim>\<open>Move\<close> reaches first.\<close>

lemma GetXY_reached:
  "reached n h a = Some ls \<Longrightarrow> ls \<noteq> [] \<and> GetXY ext n h a = Some (Inr (position (h (hd ls))))"
proof (induction n arbitrary: a ls)
  case 0
  then show ?case by simp
next
  case (Suc n)
  from Suc.prems(1) show ?case
  proof (cases rule: reached_cases)
    case (1 p)
    then show ?thesis by (cases "h p") simp_all
  next
    case (2 p sp)
    from 2(3) obtain m rest where sp: "sp = m # rest" by (cases sp) simp_all
    from 2(4) obtain l ls' where m: "reached n h m = Some l" and ls: "ls = l @ ls'"
      unfolding sp concat_options_map_Cons by blast
    from Suc.IH [OF m] have "l \<noteq> []" and "GetXY ext n h m = Some (Inr (position (h (hd l))))"
      by simp_all
    then show ?thesis using 2(1,2) sp ls by (simp add: Space_GetXY_def)
  qed
qed

text \<open>
  Claim C9, as the code has it. Take a Space whose \<^verbatim>\<open>Move\<close> reaches, through its members and
  the members of member Spaces, only circles, rectangles, lines and Spaces that are not empty,
  and reaches no circle, rectangle or line twice. Then \<^verbatim>\<open>sp.SetXY(x, y)\<close> returns; afterwards
  the first member is at \<open>(x, y)\<close>, \<^verbatim>\<open>sp.GetXY()\<close> returns \<open>(x, y)\<close>, every member has moved by
  the same delta \<open>(x - x0, y - y0)\<close> from the former position \<open>(x0, y0)\<close> of the first (with
  wrap-around), and nothing but the shapes reached has changed.
\<close>
theorem Space_SetXY_distinct:
  assumes "h r = SpaceShape sp" and "reached (Suc n) h (Ptr r) = Some ls" and "distinct ls"
  shows "\<exists>h' x0 y0.
           Space_GetXY (GetXY ext n h) h (Ptr r) = Some (Inr (x0, y0))
         \<and> Space_SetXY (GetXY ext n) (Move ext n) h (Ptr r) x y = Some (None, h')
         \<and> h' r = SpaceShape sp
         \<and> GetXY ext n h' (sp ! 0) = Some (Inr (x, y))
         \<and> Space_GetXY (GetXY ext n h') h' (Ptr r) = Some (Inr (x, y))
         \<and> (\<forall>m\<in>set sp. \<forall>px py. GetXY ext n h m = Some (Inr (px, py)) \<longrightarrow>
               GetXY ext n h' m = Some (Inr (px + (x - x0), py + (y - y0))))
         \<and> (\<forall>a. a \<notin> set ls \<longrightarrow> h' a = h a)"
proof -
  have ne: "sp \<noteq> []" and c: "concat_options (map (reached n h) sp) = Some ls"
    using assms(1,2) by (simp_all split: if_splits)
  obtain m0 rest where sp: "sp = m0 # rest" using ne by (cases sp) simp_all
  define x0 where "x0 = fst (position (h (hd ls)))"
  define y0 where "y0 = snd (position (h (hd ls)))"
  define h' where "h' = move_all (x - x0) (y - y0) ls h"
  have leaves: "\<exists>l. reached n h m = Some l \<and> set l \<subseteq> set ls" if "m \<in> set sp" for m
    using c that by (rule concat_options_member)
  have member: "GetXY ext n h' m = Some (Inr (px + (x - x0), py + (y - y0)))"
    if "m \<in> set sp" "GetXY ext n h m = Some (Inr (px, py))" for m px py
  proof -
    from leaves [OF that(1)] obtain l where l: "reached n h m = Some l" and sub: "set l \<subseteq> set ls"
      by blast
    from GetXY_reached [OF l, of ext] that(2)
    have lne: "l \<noteq> []" and p: "position (h (hd l)) = (px, py)" by simp_all
    have "reached n h' m = Some l" unfolding h'_def reached_move_all by (rule l)
    from GetXY_reached [OF this, of ext]
    have g: "GetXY ext n h' m = Some (Inr (position (h' (hd l))))" by simp
    have "hd l \<in> set l" using lne by simp
    then have bl: "is_basic (h (hd l))" by (rule reached_basic [OF l])
    have "hd l \<in> set ls" using lne sub by auto
    then have "h' (hd l) = moved (x - x0) (y - y0) (h (hd l))" by (simp add: h'_def move_all_def)
    then show ?thesis
      using g position_moved [of "h (hd l)" "x - x0" "y - y0", OF bl] p by simp
  qed
  have g0: "GetXY ext n h m0 = Some (Inr (x0, y0))"
  proof -
    from c obtain l ls' where l: "reached n h m0 = Some l" and ls: "ls = l @ ls'"
      unfolding sp concat_options_map_Cons by blast
    from GetXY_reached [OF l, of ext]
    have "l \<noteq> []" and "GetXY ext n h m0 = Some (Inr (position (h (hd l))))" by simp_all
    then show ?thesis by (simp add: x0_def y0_def ls)
  qed
  then have s0: "Space_GetXY (GetXY ext n h) h (Ptr r) = Some (Inr (x0, y0))"
    using assms(1) by (simp add: Space_GetXY_def sp)
  have mv: "Space_Move_range (\<lambda>h' shape. Move ext n h' shape (x - x0) (y - y0)) h sp =
      Some (None, h')"
    unfolding h'_def using Move_reached c assms(3) by (rule Space_Move_reached)
  have set: "Space_SetXY (GetXY ext n) (Move ext n) h (Ptr r) x y = Some (None, h')"
    unfolding Space_SetXY_def using s0 mv ne assms(1) by (simp add: Let_def)
  have "r \<notin> set ls"
    using reached_basic [OF assms(2), of r] assms(1) by auto
  then have hr: "h' r = SpaceShape sp" using assms(1) by (simp add: h'_def move_all_def)
  have "GetXY ext n h' m0 = Some (Inr (x0 + (x - x0), y0 + (y - y0)))"
    using g0 by (intro member) (simp_all add: sp)
  then have root: "GetXY ext n h' (sp ! 0) = Some (Inr (x, y))" by (simp add: sp)
  then have g': "Space_GetXY (GetXY ext n h') h' (Ptr r) = Some (Inr (x, y))"
    unfolding Space_GetXY_def using ne hr by simp
  have out: "\<forall>a. a \<notin> set ls \<longrightarrow> h' a = h a" by (simp add: h'_def move_all_def)
  show ?thesis
    using s0 set hr root g' member out by blast
qed

text \<open>
  The Space 9 holds the circle 0 at \<open>(1,1)\<close> and the Space 8, which holds the rectangle 1 at
  \<open>(3,4)\<close>. \<^verbatim>\<open>SetXY(5, 5)\<close> returns; the circle is at \<open>(5,5)\<close> and the member Space at \<open>(7,8)\<close>.
\<close>

theorem Space_SetXY_distinct_witness:
  "\<exists>h'. Space_SetXY (GetXY no_foreign 2) (Move no_foreign 2)
           (empty_heap(0 := CircleShape \<lparr>X = 1, Y = 1, Radius = 1\<rparr>,
                       1 := RectangleShape \<lparr>X = 3, Y = 4, W = 2, H = 2\<rparr>,
                       8 := SpaceShape [Ptr 1],
                       9 := SpaceShape [Ptr 0, Ptr 8])) (Ptr 9) 5 5 = Some (None, h')
       \<and> GetXY no_foreign 2 h' (Ptr 0) = Some (Inr (5, 5))
       \<and> GetXY no_foreign 2 h' (Ptr 8) = Some (Inr (7, 8))"
proof -
  let ?h = "empty_heap(0 := CircleShape \<lparr>X = 1, Y = 1, Radius = 1\<rparr>,
                 1 := RectangleShape \<lparr>X = 3, Y = 4, W = 2, H = 2\<rparr>,
                 8 := SpaceShape [Ptr 1],
                 9 := SpaceShape [Ptr 0, Ptr 8])"
  have a: "?h 9 = SpaceShape [Ptr 0, Ptr 8]" by simp
  have b: "reached (Suc 2) ?h (Ptr 9) = Some [0, 1]" by (simp add: eval_nat_numeral)
  have c: "distinct [0, 1 :: nat]" by simp
  have g: "Space_GetXY (GetXY no_foreign 2 ?h) ?h (Ptr 9) = Some (Inr (1, 1))"
    by (simp add: Space_GetXY_def BasicShape_GetXY_def eval_nat_numeral)
  have g1: "GetXY no_foreign 2 ?h (Ptr 8) = Some (Inr (3, 4))"
    by (simp add: Space_GetXY_def BasicShape_GetXY_def eval_nat_numeral)
  from Space_SetXY_distinct [of ?h 9 "[Ptr 0, Ptr 8]" 2 "[0, 1]" no_foreign 5 5, OF a b c]
  obtain h' x0 y0 where
      1: "Space_GetXY (GetXY no_foreign 2 ?h) ?h (Ptr 9) = Some (Inr (x0, y0))"
  and 2: "Space_SetXY (GetXY no_foreign 2) (Move no_foreign 2) ?h (Ptr 9) 5 5 = Some (None, h')"
  and 3: "GetXY no_foreign 2 h' ([Ptr 0, Ptr 8] ! 0) = Some (Inr (5, 5))"
  and 4: "\<forall>m\<in>set [Ptr 0, Ptr 8]. \<forall>px py. GetXY no_foreign 2 ?h m = Some (Inr (px, py)) \<longrightarrow>
               GetXY no_foreign 2 h' m = Some (Inr (px + (5 - x0), py + (5 - y0)))"
    by blast
  from 1 g have xy: "x0 = 1" "y0 = 1" by simp_all
  from 3 have r: "GetXY no_foreign 2 h' (Ptr 0) = Some (Inr (5, 5))" by simp
  have "Ptr 8 \<in> set [Ptr 0, Ptr 8]" by simp
  with 4 g1 have "GetXY no_foreign 2 h' (Ptr 8) = Some (Inr (3 + (5 - x0), 4 + (5 - y0)))"
    by blast
  then have "GetXY no_foreign 2 h' (Ptr 8) = Some (Inr (7, 8))"
    unfolding xy by simp
  with 2 r show ?thesis by blast
qed

text \<open>
  C9 fails for a Space that holds a shape twice: the circle at \<open>(1,1)\<close> is moved twice by
  \<open>(4,4)\<close> and ends at \<open>(9,9)\<close>, not at \<open>(5,5)\<close>. It fails as well for a Space whose first
  member is an empty Space: nothing moves and \<^verbatim>\<open>GetXY\<close> returns \<open>(0,0)\<close> as before.
\<close>

theorem Space_SetXY_counterexample:
  "Space_SetXY (GetXY no_foreign 1) (Move no_foreign 1)
     (empty_heap(0 := CircleShape \<lparr>X = 1, Y = 1, Radius = 1\<rparr>, 9 := SpaceShape [Ptr 0, Ptr 0]))
     (Ptr 9) 5 5 =
   Some (None,
     empty_heap(0 := CircleShape \<lparr>X = 9, Y = 9, Radius = 1\<rparr>, 9 := SpaceShape [Ptr 0, Ptr 0]))
   \<and> Space_GetXY
       (GetXY no_foreign 1
          (empty_heap(0 := CircleShape \<lparr>X = 9, Y = 9, Radius = 1\<rparr>,
                      9 := SpaceShape [Ptr 0, Ptr 0])))
       (empty_heap(0 := CircleShape \<lparr>X = 9, Y = 9, Radius = 1\<rparr>, 9 := SpaceShape [Ptr 0, Ptr 0]))
       (Ptr 9) = Some (Inr (9, 9))
   \<and> Space_SetXY (GetXY no_foreign 2) (Move no_foreign 2)
       (empty_heap(0 := SpaceShape [], 9 := SpaceShape [Ptr 0])) (Ptr 9) 5 5 =
     Some (None, empty_heap(0 := SpaceShape [], 9 := SpaceShape [Ptr 0]))
   \<and> Space_GetXY (GetXY no_foreign 2 (empty_heap(0 := SpaceShape [], 9 := SpaceShape [Ptr 0])))
       (empty_heap(0 := SpaceShape [], 9 := SpaceShape [Ptr 0])) (Ptr 9) =
     Some (Inr (0, 0))"
  by (simp add: Space_SetXY_def Space_GetXY_def Space_Move_def BasicShape_GetXY_def
        BasicShape_Move_def fun_eq_iff eval_nat_numeral)

end
